theory Spec2Isabelle
  imports Complex_Main "HOL-Library.Sublist"
begin

section \<open>Values\<close>

text \<open>
  The script \<^verbatim>\<open>scripts/funding.py\<close> works on the Python values that \<^verbatim>\<open>r.json()\<close>
  returns. A JSON object is a Python \<^verbatim>\<open>dict\<close> with string keys, kept here as the list of
  its items in insertion order (the keys of a \<^verbatim>\<open>dict\<close> are distinct); \<^verbatim>\<open>None\<close> is
  \<open>JNull\<close>. Python keeps \<^verbatim>\<open>int\<close> and \<^verbatim>\<open>float\<close> apart (and \<^verbatim>\<open>bool\<close> is an \<^verbatim>\<open>int\<close>
  for \<^verbatim>\<open>isinstance\<close>), so the model does too.

  A \<^verbatim>\<open>float\<close> is modelled as a real number: the rounding of float arithmetic,
  infinities and NaN are not part of the model. The conversion of an \<^verbatim>\<open>int\<close> to a
  \<^verbatim>\<open>float\<close> is modelled as Python does it, with its rounding and its
  \<^verbatim>\<open>OverflowError\<close>. Strings are ASCII: \<^verbatim>\<open>upper\<close>, \<^verbatim>\<open>lower\<close>, \<^verbatim>\<open>isalnum\<close> and
  \<^verbatim>\<open>strip\<close> are modelled on the ASCII range. What belongs to Python and not to the
  script is a parameter: \<^verbatim>\<open>float\<close> on a string (\<open>str_float\<close>), the timestamp of an
  ISO date (\<open>iso_ts\<close>) and the HTTP client (\<open>client\<close>, the outcome of a request as a
  function of its URL).
\<close>

datatype json =
    JNull
  | JBool bool
  | JInt int
  | JFloat real
  | JStr string
  | JArr "json list"
  | JObj "(string \<times> json) list"

type_synonym pydict = "(string \<times> json) list"

text \<open>\<^verbatim>\<open>d.get(k)\<close>: the value stored under \<open>k\<close>, \<^verbatim>\<open>None\<close> when the key is absent.\<close>

definition dict_get :: "pydict \<Rightarrow> string \<Rightarrow> json" where
  "dict_get d k = (case map_of d k of None \<Rightarrow> JNull | Some v \<Rightarrow> v)"

text \<open>Python truthiness, as used by \<^verbatim>\<open>or\<close>, \<^verbatim>\<open>not\<close> and \<^verbatim>\<open>if\<close>.\<close>

fun truthy :: "json \<Rightarrow> bool" where
  "truthy JNull = False"
| "truthy (JBool b) = b"
| "truthy (JInt i) = (i \<noteq> 0)"
| "truthy (JFloat x) = (x \<noteq> 0)"
| "truthy (JStr s) = (s \<noteq> [])"
| "truthy (JArr xs) = (xs \<noteq> [])"
| "truthy (JObj kvs) = (kvs \<noteq> [])"

text \<open>\<^verbatim>\<open>a or b\<close> on values: \<open>a\<close> when it is truthy, else \<open>b\<close>.\<close>

definition py_or :: "json \<Rightarrow> json \<Rightarrow> json" where
  "py_or a b = (if truthy a then a else b)"

text \<open>\<^verbatim>\<open>n.bit_length()\<close> for a natural number.\<close>

fun bit_length :: "nat \<Rightarrow> nat" where
  "bit_length n = (if n = 0 then 0 else Suc (bit_length (n div 2)))"

declare bit_length.simps [simp del]

text \<open>
  \<^verbatim>\<open>float(i)\<close> for an \<^verbatim>\<open>int\<close>: the nearest double, a tie going to the even
  significand of 53 bits, and \<open>None\<close> for the \<^verbatim>\<open>OverflowError\<close> that Python raises when
  the rounded value is beyond the doubles (from \<open>2\<^sup>1\<^sup>0\<^sup>2\<^sup>4\<close> on). An integer below
  \<open>2\<^sup>5\<^sup>3\<close> in magnitude is converted exactly.
\<close>

definition int_to_float :: "int \<Rightarrow> real option" where
  "int_to_float i =
     (let a = nat \<bar>i\<bar> in
      if a < 2 ^ 53 then Some (real_of_int i)
      else
        (let e = bit_length a - 53;
             q = a div 2 ^ e;
             r = a mod 2 ^ e;
             m = (if 2 * r > 2 ^ e \<or> (2 * r = 2 ^ e \<and> odd q) then q + 1 else q) * 2 ^ e
         in if m \<ge> 2 ^ 1024 then None
            else Some (if i < 0 then - real m else real m)))"

text \<open>
  \<^verbatim>\<open>float(val)\<close>, \<open>None\<close> when it raises. The conversion of a string is Python's own,
  taken as the parameter \<open>str_float\<close> (\<open>None\<close> when \<^verbatim>\<open>float\<close> raises
  \<^verbatim>\<open>ValueError\<close>); an \<^verbatim>\<open>int\<close> beyond the doubles raises \<^verbatim>\<open>OverflowError\<close>; a list, a
  dict or \<^verbatim>\<open>None\<close> raises \<^verbatim>\<open>TypeError\<close>.
\<close>

fun py_float :: "(string \<Rightarrow> real option) \<Rightarrow> json \<Rightarrow> real option" where
  "py_float str_float (JBool b) = Some (if b then 1 else 0)"
| "py_float str_float (JInt i) = int_to_float i"
| "py_float str_float (JFloat x) = Some x"
| "py_float str_float (JStr s) = str_float s"
| "py_float str_float JNull = None"
| "py_float str_float (JArr xs) = None"
| "py_float str_float (JObj kvs) = None"

section \<open>Strings\<close>

definition ascii_lowercase :: string where
  "ascii_lowercase = ''abcdefghijklmnopqrstuvwxyz''"

definition ascii_uppercase :: string where
  "ascii_uppercase = ''ABCDEFGHIJKLMNOPQRSTUVWXYZ''"

definition ascii_digits :: string where
  "ascii_digits = ''0123456789''"

text \<open>
  The ASCII characters for which \<^verbatim>\<open>str.isspace\<close> holds: tab, line feed, vertical tab,
  form feed, carriage return, the four separators \<open>0x1C\<close> to \<open>0x1F\<close>, and the space.
\<close>

definition ascii_whitespace :: string where
  "ascii_whitespace =
     [CHR 0x09, CHR 0x0A, CHR 0x0B, CHR 0x0C, CHR 0x0D,
      CHR 0x1C, CHR 0x1D, CHR 0x1E, CHR 0x1F, CHR '' '']"

definition is_alnum :: "char \<Rightarrow> bool" where
  "is_alnum c = (c \<in> set (ascii_digits @ ascii_uppercase @ ascii_lowercase))"

definition lower_char :: "char \<Rightarrow> char" where
  "lower_char c =
     (case map_of (zip ascii_uppercase ascii_lowercase) c of Some l \<Rightarrow> l | None \<Rightarrow> c)"

definition upper_char :: "char \<Rightarrow> char" where
  "upper_char c =
     (case map_of (zip ascii_lowercase ascii_uppercase) c of Some u \<Rightarrow> u | None \<Rightarrow> c)"

definition is_space :: "char \<Rightarrow> bool" where
  "is_space c = (c \<in> set ascii_whitespace)"

definition py_lower :: "string \<Rightarrow> string" where
  "py_lower s = map lower_char s"

definition py_upper :: "string \<Rightarrow> string" where
  "py_upper s = map upper_char s"

definition py_strip :: "string \<Rightarrow> string" where
  "py_strip s = dropWhile is_space (rev (dropWhile is_space (rev s)))"

text \<open>\<^verbatim>\<open>k in key\<close> on strings: \<open>k\<close> occurs in \<open>key\<close> as a contiguous run.\<close>

fun py_in :: "string \<Rightarrow> string \<Rightarrow> bool" where
  "py_in k [] = (k = [])"
| "py_in k (c # cs) = (prefix k (c # cs) \<or> py_in k cs)"

text \<open>\<^verbatim>\<open>s.replace("/", "-")\<close> and \<^verbatim>\<open>s.replace("__", "-")\<close> (leftmost, non-overlapping).\<close>

definition replace_slash :: "string \<Rightarrow> string" where
  "replace_slash s = map (\<lambda>c. if c = CHR ''/'' then CHR ''-'' else c) s"

fun replace_dunder :: "string \<Rightarrow> string" where
  "replace_dunder (a # b # cs) =
     (if a = CHR ''_'' \<and> b = CHR ''_'' then CHR ''-'' # replace_dunder cs
      else a # replace_dunder (b # cs))"
| "replace_dunder [a] = [a]"
| "replace_dunder [] = []"

text \<open>Putting a character in front of the first piece of a split.\<close>

fun cons_first :: "char \<Rightarrow> string list \<Rightarrow> string list" where
  "cons_first c [] = [[c]]"
| "cons_first c (t # ts) = (c # t) # ts"

text \<open>\<^verbatim>\<open>s.split(sep)\<close> for a one-character separator: the pieces between
  separators, empty pieces included.\<close>

fun py_split :: "char \<Rightarrow> string \<Rightarrow> string list" where
  "py_split sep [] = [[]]"
| "py_split sep (c # cs) =
     (if c = sep then [] # py_split sep cs else cons_first c (py_split sep cs))"

text \<open>\<^verbatim>\<open>str(idx)\<close> for a list index: its decimal digits.\<close>

fun str_nat :: "nat \<Rightarrow> string" where
  "str_nat n =
     (if n < 10 then [ascii_digits ! n]
      else str_nat (n div 10) @ [ascii_digits ! (n mod 10)])"

declare str_nat.simps [simp del]

section \<open>Common utilities\<close>

definition clean_alnum :: "string \<Rightarrow> string" where
  "clean_alnum s = py_lower (filter is_alnum s)"

text \<open>
  \<^verbatim>\<open>coerce_rate\<close>: \<^verbatim>\<open>None\<close> in, \<^verbatim>\<open>None\<close> out; a value \<^verbatim>\<open>float\<close> rejects gives
  \<^verbatim>\<open>None\<close>; a magnitude in \<open>(1, 100]\<close> is a percentage and is divided by 100; a
  magnitude above \<open>0.5\<close> after that is dropped.
\<close>

definition coerce_rate :: "(string \<Rightarrow> real option) \<Rightarrow> json \<Rightarrow> real option" where
  "coerce_rate str_float val =
     (if val = JNull then None
      else case py_float str_float val of
        None \<Rightarrow> None
      | Some x0 \<Rightarrow>
          (let x = (if 1 < \<bar>x0\<bar> \<and> \<bar>x0\<bar> \<le> 100 then x0 / 100 else x0)
           in if \<bar>x\<bar> > 0.5 then None else Some x))"

definition base_from_symbol :: "string \<Rightarrow> string" where
  "base_from_symbol symbol =
     (let s = py_strip (replace_dunder (replace_slash (py_upper symbol)));
          parts = filter (\<lambda>p. p \<noteq> []) (py_split CHR ''-'' s)
      in case parts of
           p # _ \<Rightarrow> p
         | [] \<Rightarrow> (if s \<noteq> [] then s else ''?''))"

section \<open>Aggregator parser\<close>

definition PLAT_MAP :: "(string \<times> string) list" where
  "PLAT_MAP =
     [(''lighter'', ''Lighter''),
      (''zklighter'', ''Lighter''),
      (''hyperliquid'', ''Hyperliquid''),
      (''hyperliquidv2'', ''Hyperliquid''),
      (''hyper'', ''Hyperliquid'')]"

text \<open>The loop \<^verbatim>\<open>for k, v in PLAT_MAP.items(): if k in key: return v\<close>.\<close>

fun first_contained :: "(string \<times> string) list \<Rightarrow> string \<Rightarrow> string option" where
  "first_contained [] key = None"
| "first_contained ((k, v) # kvs) key = (if py_in k key then Some v else first_contained kvs key)"

definition norm_platform_label :: "string option \<Rightarrow> string option" where
  "norm_platform_label raw =
     (case raw of
        None \<Rightarrow> None
      | Some r \<Rightarrow>
          if r = [] then None
          else (let key = clean_alnum r in
                case map_of PLAT_MAP key of
                  Some v \<Rightarrow> Some v
                | None \<Rightarrow> first_contained PLAT_MAP key))"

definition PLATFORM_KEYS :: "string list" where
  "PLATFORM_KEYS =
     [''platform'', ''exchange'', ''venue'', ''source'', ''provider'', ''dex'',
      ''market_provider'']"

definition SYMBOL_KEYS :: "string list" where
  "SYMBOL_KEYS =
     [''symbol'', ''market'', ''pair'', ''name'', ''base'', ''asset'', ''coin'', ''ticker'']"

definition FUND_KEYS :: "string list" where
  "FUND_KEYS =
     [''funding_rate'', ''fundingrate'', ''hourlyfundingrate'', ''predictedfundingrate'',
      ''rate'', ''value'']"

definition is_probable_symbol_key :: "string \<Rightarrow> bool" where
  "is_probable_symbol_key k = list_ex (\<lambda>x. py_in x (py_lower k)) SYMBOL_KEYS"

definition is_probable_platform_key :: "string \<Rightarrow> bool" where
  "is_probable_platform_key k = list_ex (\<lambda>x. py_in x (py_lower k)) PLATFORM_KEYS"

definition is_probable_rate_key :: "string \<Rightarrow> bool" where
  "is_probable_rate_key k0 =
     (let k = py_lower k0 in
      list_ex (\<lambda>x. py_in x k) FUND_KEYS
      \<or> (py_in ''fund'' k \<and> \<not> py_in ''index'' k \<and> \<not> py_in ''time'' k))"

text \<open>
  \<^verbatim>\<open>traverse\<close> is a generator; the model is the list of what it yields, in the order
  it yields it. The two \<^verbatim>\<open>for\<close> loops are \<open>traverse_items\<close> (over \<^verbatim>\<open>node.items()\<close>)
  and \<open>traverse_elems\<close> (over \<^verbatim>\<open>enumerate(node)\<close>, the index carried along). The keys
  of a parsed JSON object are strings, so \<^verbatim>\<open>str(k)\<close> is \<open>k\<close>.
\<close>

fun traverse :: "json \<Rightarrow> string list \<Rightarrow> (pydict \<times> string list) list"
  and traverse_items :: "pydict \<Rightarrow> string list \<Rightarrow> (pydict \<times> string list) list"
  and traverse_elems :: "json list \<Rightarrow> nat \<Rightarrow> string list \<Rightarrow> (pydict \<times> string list) list"
where
  "traverse (JObj d) path_keys = (d, path_keys) # traverse_items d path_keys"
| "traverse (JArr xs) path_keys = traverse_elems xs 0 path_keys"
| "traverse JNull path_keys = []"
| "traverse (JBool b) path_keys = []"
| "traverse (JInt i) path_keys = []"
| "traverse (JFloat x) path_keys = []"
| "traverse (JStr s) path_keys = []"
| "traverse_items [] path_keys = []"
| "traverse_items ((k, v) # kvs) path_keys =
     traverse v (path_keys @ [k]) @ traverse_items kvs path_keys"
| "traverse_elems [] idx path_keys = []"
| "traverse_elems (v # vs) idx path_keys =
     traverse v (path_keys @ [str_nat idx]) @ traverse_elems vs (Suc idx) path_keys"

text \<open>
  \<^verbatim>\<open>extract_record\<close>. Its three variables are \<open>platform\<close>, \<open>symbol\<close> (each
  \<^verbatim>\<open>None\<close> or a string) and \<open>rate\<close>. \<^verbatim>\<open>not platform\<close> holds for \<^verbatim>\<open>None\<close> and for
  the empty string.
\<close>

definition str_truthy :: "string option \<Rightarrow> bool" where
  "str_truthy x = (case x of None \<Rightarrow> False | Some s \<Rightarrow> s \<noteq> [])"

text \<open>\<^verbatim>\<open>isinstance(v, (int, float, str))\<close>; a \<^verbatim>\<open>bool\<close> is an \<^verbatim>\<open>int\<close>.\<close>

fun is_scalar :: "json \<Rightarrow> bool" where
  "is_scalar (JBool b) = True"
| "is_scalar (JInt i) = True"
| "is_scalar (JFloat x) = True"
| "is_scalar (JStr s) = True"
| "is_scalar JNull = False"
| "is_scalar (JArr xs) = False"
| "is_scalar (JObj d) = False"

text \<open>Step 1, the body of the loop over \<^verbatim>\<open>d.items()\<close>.\<close>

definition direct_step ::
  "(string \<Rightarrow> real option) \<Rightarrow> string \<times> json \<Rightarrow>
   string option \<times> string option \<times> real option \<Rightarrow>
   string option \<times> string option \<times> real option" where
  "direct_step str_float kv st =
     (case kv of (k, v) \<Rightarrow> case st of (platform, symbol, rate) \<Rightarrow>
        let platform1 =
              (case v of
                 JStr sv \<Rightarrow>
                   if is_probable_platform_key k \<and> \<not> str_truthy platform
                   then norm_platform_label (Some sv) else platform
               | _ \<Rightarrow> platform);
            symbol1 =
              (case v of
                 JStr sv \<Rightarrow>
                   if is_probable_symbol_key k \<and> \<not> str_truthy symbol
                   then Some sv else symbol
               | _ \<Rightarrow> symbol);
            rate1 =
              (if is_scalar v \<and> is_probable_rate_key k \<and> rate = None
               then coerce_rate str_float v else rate)
        in (platform1, symbol1, rate1))"

text \<open>Step 2, the loop over \<^verbatim>\<open>path_keys[::-1]\<close>: the first truthy guess.\<close>

fun path_platform :: "string list \<Rightarrow> string option" where
  "path_platform [] = None"
| "path_platform (key # keys) =
     (let guess = norm_platform_label (Some key)
      in if str_truthy guess then guess else path_platform keys)"

text \<open>Step 3, the inner loop over \<^verbatim>\<open>v.items()\<close>: it assigns at the first match and
  breaks.\<close>

fun inner_symbol :: "pydict \<Rightarrow> string option \<Rightarrow> string option" where
  "inner_symbol [] symbol = symbol"
| "inner_symbol ((kk, vv) # kvs) symbol =
     (case vv of
        JStr sv \<Rightarrow> if is_probable_symbol_key kk then Some sv else inner_symbol kvs symbol
      | _ \<Rightarrow> inner_symbol kvs symbol)"

fun nested_symbol :: "json list \<Rightarrow> string option \<Rightarrow> string option" where
  "nested_symbol [] symbol = symbol"
| "nested_symbol (v # vs) symbol =
     (let symbol1 = (case v of JObj d \<Rightarrow> inner_symbol d symbol | _ \<Rightarrow> symbol)
      in if str_truthy symbol1 then symbol1 else nested_symbol vs symbol1)"

text \<open>Step 4, entered with \<open>rate = None\<close>: the inner loop assigns every matching
  value's \<^verbatim>\<open>coerce_rate\<close> and breaks at the first that is not \<^verbatim>\<open>None\<close>.\<close>

fun inner_rate :: "(string \<Rightarrow> real option) \<Rightarrow> pydict \<Rightarrow> real option" where
  "inner_rate str_float [] = None"
| "inner_rate str_float ((kk, vv) # kvs) =
     (if is_probable_rate_key kk \<and> is_scalar vv
      then (case coerce_rate str_float vv of
              Some r \<Rightarrow> Some r
            | None \<Rightarrow> inner_rate str_float kvs)
      else inner_rate str_float kvs)"

fun nested_rate :: "(string \<Rightarrow> real option) \<Rightarrow> json list \<Rightarrow> real option" where
  "nested_rate str_float [] = None"
| "nested_rate str_float (v # vs) =
     (let rate = (case v of JObj d \<Rightarrow> inner_rate str_float d | _ \<Rightarrow> None)
      in if rate \<noteq> None then rate else nested_rate str_float vs)"

definition extract_record ::
  "(string \<Rightarrow> real option) \<Rightarrow> pydict \<Rightarrow> string list \<Rightarrow>
   string option \<times> string option \<times> real option" where
  "extract_record str_float d path_keys =
     (case fold (direct_step str_float) d (None, None, None) of
        (platform0, symbol0, rate0) \<Rightarrow>
          let platform =
                (if \<not> str_truthy platform0
                 then (case path_platform (rev path_keys) of
                         Some guess \<Rightarrow> Some guess
                       | None \<Rightarrow> platform0)
                 else platform0);
              symbol =
                (if \<not> str_truthy symbol0 then nested_symbol (map snd d) symbol0
                 else symbol0);
              rate =
                (if rate0 = None then nested_rate str_float (map snd d) else rate0);
              base = base_from_symbol (case symbol of None \<Rightarrow> [] | Some sy \<Rightarrow> sy)
          in (platform, if str_truthy symbol then Some base else None, rate))"

text \<open>
  The table \<^verbatim>\<open>by_base\<close> is a dict of dicts; the seed list \<^verbatim>\<open>bases_lighter\<close> is a list.
  The counters and samples that \<^verbatim>\<open>fetch_agg\<close> keeps for its diagnostic printing do
  not reach what it returns and are left out.
\<close>

type_synonym table = "string \<rightharpoonup> (string \<rightharpoonup> real)"

record agg_state =
  by_base :: table
  bases_lighter :: "string list"

text \<open>Lines 151 and 152: the empty table and the empty seed list.\<close>

definition init_state :: agg_state where
  "init_state = \<lparr> by_base = Map.empty, bases_lighter = [] \<rparr>"

text \<open>\<^verbatim>\<open>by_base.setdefault(base, {})\<close>.\<close>

definition setdefault_row :: "string \<Rightarrow> table \<Rightarrow> table" where
  "setdefault_row base t = (case t base of None \<Rightarrow> t(base \<mapsto> Map.empty) | Some row \<Rightarrow> t)"

text \<open>\<^verbatim>\<open>by_base[base][plat] = rate\<close>, after the \<^verbatim>\<open>setdefault\<close>.\<close>

definition set_cell :: "string \<Rightarrow> string \<Rightarrow> real \<Rightarrow> table \<Rightarrow> table" where
  "set_cell base plat rate t =
     (case t base of None \<Rightarrow> t | Some row \<Rightarrow> t(base \<mapsto> row(plat \<mapsto> rate)))"

text \<open>Lines 176 to 179: folding one accepted triple into the table and the seed list.\<close>

definition reconcile :: "string \<times> string \<times> real \<Rightarrow> agg_state \<Rightarrow> agg_state" where
  "reconcile rec st =
     (case rec of (plat, base, rate) \<Rightarrow>
        let t = set_cell base plat rate (setdefault_row base (by_base st))
        in \<lparr> by_base = t,
             bases_lighter =
               (if plat = ''Lighter'' \<and> base \<notin> set (bases_lighter st)
                then bases_lighter st @ [base] else bases_lighter st) \<rparr>)"

text \<open>The test of line 167; \<open>None\<close> when the record is skipped.\<close>

definition accepted ::
  "string option \<times> string option \<times> real option \<Rightarrow> (string \<times> string \<times> real) option" where
  "accepted rec =
     (case rec of
        (Some plat, Some base, Some rate) \<Rightarrow>
          if (plat = ''Lighter'' \<or> plat = ''Hyperliquid'') \<and> base \<noteq> []
          then Some (plat, base, rate) else None
      | _ \<Rightarrow> None)"

text \<open>The loop of lines 161 to 179 over what \<^verbatim>\<open>traverse\<close> yields.\<close>

fun agg_loop ::
  "(string \<Rightarrow> real option) \<Rightarrow> (pydict \<times> string list) list \<Rightarrow> agg_state \<Rightarrow> agg_state" where
  "agg_loop str_float [] st = st"
| "agg_loop str_float ((node, path) # rest) st =
     (case accepted (extract_record str_float node path) of
        None \<Rightarrow> agg_loop str_float rest st
      | Some rec \<Rightarrow> agg_loop str_float rest (reconcile rec st))"

text \<open>
  What a request gives: an exception of \<^verbatim>\<open>client.get\<close>, or a response with its status
  code and what \<^verbatim>\<open>r.json()\<close> returns (\<open>None\<close> when it raises). \<^verbatim>\<open>raise_for_status\<close>
  raises for every status that is not a success (2xx).
\<close>

datatype http_outcome = RequestError | Response nat "json option"

definition is_success :: "nat \<Rightarrow> bool" where
  "is_success code = (200 \<le> code \<and> code < 300)"

text \<open>
  \<^verbatim>\<open>fetch_agg\<close>, given the outcome of its one request; \<open>None\<close> when an exception
  leaves the function.
\<close>

definition fetch_agg ::
  "(string \<Rightarrow> real option) \<Rightarrow> http_outcome \<Rightarrow> (table \<times> string list) option" where
  "fetch_agg str_float outcome =
     (case outcome of
        RequestError \<Rightarrow> None
      | Response code body \<Rightarrow>
          if \<not> is_success code then None
          else (case body of
                  None \<Rightarrow> None
                | Some data \<Rightarrow>
                    let st = agg_loop str_float (traverse data []) init_state
                    in Some (by_base st, bases_lighter st)))"

section \<open>Paradex\<close>

text \<open>
  The exception that can leave \<^verbatim>\<open>_parse_ts\<close> and \<^verbatim>\<open>extract_paradex_latest\<close>: their
  results are \<open>Inl\<close> of it, or \<open>Inr\<close> of what they return.
\<close>

datatype py_error = OverflowError

text \<open>
  \<^verbatim>\<open>_parse_ts\<close>. A number above \<open>10\<^sup>1\<^sup>2\<close> is taken as milliseconds. The
  \<^verbatim>\<open>float(ts_val)\<close> of line 196 is in no \<^verbatim>\<open>try\<close>: its \<^verbatim>\<open>OverflowError\<close> leaves the
  function. For a string, \<^verbatim>\<open>datetime.fromisoformat(s).timestamp()\<close> is Python's own and
  is the parameter \<open>iso_ts\<close> (\<open>None\<close> when it raises, which line 203 catches).
\<close>

fun parse_ts :: "(string \<Rightarrow> real option) \<Rightarrow> json \<Rightarrow> py_error + real option" where
  "parse_ts iso_ts JNull = Inr None"
| "parse_ts iso_ts (JBool b) =
     (let x = (if b then 1 else 0 :: real) in Inr (Some (if x > 10 ^ 12 then x / 1000 else x)))"
| "parse_ts iso_ts (JInt i) =
     (case int_to_float i of
        None \<Rightarrow> Inl OverflowError
      | Some x \<Rightarrow> Inr (Some (if x > 10 ^ 12 then x / 1000 else x)))"
| "parse_ts iso_ts (JFloat x) = Inr (Some (if x > 10 ^ 12 then x / 1000 else x))"
| "parse_ts iso_ts (JStr s0) =
     (let s = py_strip s0;
          s1 = (if s \<noteq> [] \<and> last s = CHR ''Z'' then butlast s @ ''+00:00'' else s)
      in Inr (iso_ts s1))"
| "parse_ts iso_ts (JArr xs) = Inr None"
| "parse_ts iso_ts (JObj d) = Inr None"

text \<open>
  \<^verbatim>\<open>a or b\<close> on the results of \<^verbatim>\<open>_parse_ts\<close>: \<^verbatim>\<open>None\<close> and \<open>0.0\<close> are falsy; \<open>b\<close> is
  evaluated only when \<open>a\<close> is falsy, and an exception of \<open>a\<close> ends the evaluation.
\<close>

definition ts_or :: "py_error + real option \<Rightarrow> py_error + real option \<Rightarrow> py_error + real option" where
  "ts_or a b =
     (case a of
        Inl e \<Rightarrow> Inl e
      | Inr None \<Rightarrow> b
      | Inr (Some x) \<Rightarrow> if x \<noteq> 0 then a else b)"

text \<open>The rate of an entry (lines 218 to 222) and its timestamp (lines 224 to 226).\<close>

definition entry_rate :: "(string \<Rightarrow> real option) \<Rightarrow> pydict \<Rightarrow> real option" where
  "entry_rate str_float it =
     (let rate_raw = py_or (py_or (dict_get it ''funding_rate'') (dict_get it ''fundingRate''))
                       (dict_get it ''hourly_funding_rate'')
      in if rate_raw \<noteq> JNull then py_float str_float rate_raw else None)"

definition entry_ts :: "(string \<Rightarrow> real option) \<Rightarrow> pydict \<Rightarrow> py_error + real option" where
  "entry_ts iso_ts it =
     ts_or (ts_or (ts_or (ts_or
       (parse_ts iso_ts (dict_get it ''timestamp''))
       (parse_ts iso_ts (dict_get it ''time'')))
       (parse_ts iso_ts (dict_get it ''ts'')))
       (parse_ts iso_ts (dict_get it ''created_at'')))
       (parse_ts iso_ts (dict_get it ''updated_at''))"

text \<open>
  The loop of lines 216 to 229, on the pair \<open>(best_rate, best_ts)\<close>. The rate of an entry
  is read first, and its timestamp only when it has a rate.
\<close>

fun latest_loop ::
  "(string \<Rightarrow> real option) \<Rightarrow> (string \<Rightarrow> real option) \<Rightarrow> json list \<Rightarrow>
   real option \<times> real \<Rightarrow> py_error + real option \<times> real" where
  "latest_loop str_float iso_ts [] best = Inr best"
| "latest_loop str_float iso_ts (it # items) best =
     (case it of
        JObj d \<Rightarrow>
          (case entry_rate str_float d of
             None \<Rightarrow> latest_loop str_float iso_ts items best
           | Some rate \<Rightarrow>
               (case entry_ts iso_ts d of
                  Inl e \<Rightarrow> Inl e
                | Inr ts0 \<Rightarrow>
                    (let ts = (case ts0 of None \<Rightarrow> snd best + 1 | Some t \<Rightarrow> t)
                     in if ts > snd best
                        then latest_loop str_float iso_ts items (Some rate, ts)
                        else latest_loop str_float iso_ts items best)))
      | _ \<Rightarrow> latest_loop str_float iso_ts items best)"

text \<open>Lines 208 to 212: the value of \<^verbatim>\<open>items\<close>.\<close>

definition payload_items :: "json \<Rightarrow> json" where
  "payload_items payload =
     (case payload of
        JArr xs \<Rightarrow> JArr xs
      | JObj d \<Rightarrow> py_or (py_or (dict_get d ''data'') (dict_get d ''results''))
                   (dict_get d ''items'')
      | _ \<Rightarrow> JNull)"

definition extract_paradex_latest ::
  "(string \<Rightarrow> real option) \<Rightarrow> (string \<Rightarrow> real option) \<Rightarrow> json \<Rightarrow> py_error + real option" where
  "extract_paradex_latest str_float iso_ts payload =
     (case payload_items payload of
        JArr xs \<Rightarrow>
          if xs = [] then Inr None
          else (case latest_loop str_float iso_ts xs (None, - 1) of
                  Inl e \<Rightarrow> Inl e
                | Inr best \<Rightarrow> Inr (fst best))
      | _ \<Rightarrow> Inr None)"

definition PARADEX_URL :: "string \<Rightarrow> string" where
  "PARADEX_URL market = ''https://api.prod.paradex.trade/v1/funding/data?market='' @ market"

definition market_id :: "string \<Rightarrow> string \<Rightarrow> string" where
  "market_id base q = base @ ''-'' @ q @ ''-PERP''"

text \<open>
  One round of the loop of \<^verbatim>\<open>fetch_paradex_latest_for_base\<close>, from the outcome of its
  request: the rate it returns, or \<open>None\<close> when the loop goes on to the next quote (a
  404, an exception of the request, of \<^verbatim>\<open>raise_for_status\<close>, of \<^verbatim>\<open>r.json()\<close> or of
  \<^verbatim>\<open>extract_paradex_latest\<close>, or a body with no rate).
\<close>

definition quote_rate ::
  "(string \<Rightarrow> real option) \<Rightarrow> (string \<Rightarrow> real option) \<Rightarrow> http_outcome \<Rightarrow> real option" where
  "quote_rate str_float iso_ts outcome =
     (case outcome of
        RequestError \<Rightarrow> None
      | Response code body \<Rightarrow>
          if code = 404 then None
          else if \<not> is_success code then None
          else (case body of
                  None \<Rightarrow> None
                | Some payload \<Rightarrow>
                    (case extract_paradex_latest str_float iso_ts payload of
                       Inl e \<Rightarrow> None
                     | Inr rate \<Rightarrow> rate)))"

text \<open>
  The client is the function from the URL requested to the outcome of the request. The
  function returns its result together with the URLs it requested, in order.
\<close>

fun fetch_paradex_latest_for_base ::
  "(string \<Rightarrow> real option) \<Rightarrow> (string \<Rightarrow> real option) \<Rightarrow> (string \<Rightarrow> http_outcome) \<Rightarrow>
   string \<Rightarrow> string list \<Rightarrow> real option \<times> string list" where
  "fetch_paradex_latest_for_base str_float iso_ts client base [] = (None, [])"
| "fetch_paradex_latest_for_base str_float iso_ts client base (q # quotes) =
     (let mkt = market_id base q;
          url = PARADEX_URL mkt
      in case quote_rate str_float iso_ts (client url) of
           Some rate \<Rightarrow> (Some rate, [url])
         | None \<Rightarrow>
             (case fetch_paradex_latest_for_base str_float iso_ts client base quotes of
                (res, reqs) \<Rightarrow> (res, url # reqs)))"

section \<open>Main\<close>

text \<open>The loop of lines 313 to 318 of \<^verbatim>\<open>main\<close>, on the table.\<close>

fun probe_bases ::
  "(string \<Rightarrow> real option) \<Rightarrow> (string \<Rightarrow> real option) \<Rightarrow> (string \<Rightarrow> http_outcome) \<Rightarrow>
   string list \<Rightarrow> string list \<Rightarrow> table \<Rightarrow> table" where
  "probe_bases str_float iso_ts client quotes [] t = t"
| "probe_bases str_float iso_ts client quotes (base # bases) t =
     (let rate = fst (fetch_paradex_latest_for_base str_float iso_ts client base quotes);
          t1 = setdefault_row base t;
          t2 = (case rate of None \<Rightarrow> t1 | Some r \<Rightarrow> set_cell base ''Paradex'' r t1)
      in probe_bases str_float iso_ts client quotes bases t2)"

text \<open>\<^verbatim>\<open>[b.strip().upper() for b in arg.split(",") if b.strip()]\<close>.\<close>

definition comma_list :: "string \<Rightarrow> string list" where
  "comma_list arg =
     map (\<lambda>b. py_upper (py_strip b)) (filter (\<lambda>b. py_strip b \<noteq> []) (py_split CHR '','' arg))"

text \<open>
  \<^verbatim>\<open>main\<close>; \<open>select_bases\<close> is its lines 298 to 307, the choice of the bases to
  probe. It is given the parsed arguments \<^verbatim>\<open>--only-bases\<close>, \<^verbatim>\<open>--limit\<close> and
  \<^verbatim>\<open>--quotes\<close>: the exit status and the table handed to \<^verbatim>\<open>print_pivot\<close> (\<open>None\<close>
  when the aggregator could not be read). Printing and the pause between requests are
  left out.
\<close>

definition select_bases :: "string \<Rightarrow> int \<Rightarrow> table \<Rightarrow> string list \<Rightarrow> table \<times> string list" where
  "select_bases only_bases limit t0 seed =
     (let (t1, bases0) =
            (if py_strip only_bases \<noteq> []
             then (fold setdefault_row (comma_list only_bases) t0, comma_list only_bases)
             else (t0, seed))
      in (t1, if limit > 0 then take (nat limit) bases0 else bases0))"

definition main ::
  "(string \<Rightarrow> real option) \<Rightarrow> (string \<Rightarrow> real option) \<Rightarrow> http_outcome \<Rightarrow>
   (string \<Rightarrow> http_outcome) \<Rightarrow> string \<Rightarrow> int \<Rightarrow> string \<Rightarrow> nat \<times> table option" where
  "main str_float iso_ts agg_outcome client only_bases limit quotes_arg =
     (case fetch_agg str_float agg_outcome of
        None \<Rightarrow> (1, None)
      | Some (t0, seed) \<Rightarrow>
          (case select_bases only_bases limit t0 seed of
             (t1, bases) \<Rightarrow>
               (0, Some (probe_bases str_float iso_ts client (comma_list quotes_arg) bases t1))))"

section \<open>Reference definitions\<close>

text \<open>
  The definitions of this section are not functions of the script. They are the terms in
  which the properties of the script are stated below.
\<close>

text \<open>
  The pieces of a string between the separators \<open>-\<close>, \<open>/\<close> and \<open>__\<close>, read from the
  left.
\<close>

fun sep_tokens :: "string \<Rightarrow> string list" where
  "sep_tokens (a # b # cs) =
     (if a = CHR ''-'' \<or> a = CHR ''/'' then [] # sep_tokens (b # cs)
      else if a = CHR ''_'' \<and> b = CHR ''_'' then [] # sep_tokens cs
      else cons_first a (sep_tokens (b # cs)))"
| "sep_tokens [a] = (if a = CHR ''-'' \<or> a = CHR ''/'' then [[], []] else [[a]])"
| "sep_tokens [] = [[]]"

definition first_nonempty :: "string list \<Rightarrow> string option" where
  "first_nonempty ts = (case filter (\<lambda>t. t \<noteq> []) ts of [] \<Rightarrow> None | t # _ \<Rightarrow> Some t)"

text \<open>The two replacements of \<open>base_from_symbol\<close>, one after the other.\<close>

definition norm_seps :: "string \<Rightarrow> string" where
  "norm_seps s = replace_dunder (replace_slash s)"

text \<open>
  Alphanumeric characters and lower-casing on character codes: the digits are 48 to 57,
  the capital letters 65 to 90 and the small letters 97 to 122, each small letter 32
  above its capital.
\<close>

definition alnum_code :: "nat \<Rightarrow> bool" where
  "alnum_code n = ((48 \<le> n \<and> n \<le> 57) \<or> (65 \<le> n \<and> n \<le> 90) \<or> (97 \<le> n \<and> n \<le> 122))"

definition lower_code :: "nat \<Rightarrow> nat" where
  "lower_code n = (if 65 \<le> n \<and> n \<le> 90 then n + 32 else n)"

text \<open>
  Resolving a normalised label as the specification words it: look the key up in the
  alias table, else take the first table key that occurs in it as a contiguous part
  (\<open>sublist\<close> of the list library).
\<close>

definition resolve_key :: "string \<Rightarrow> string option" where
  "resolve_key key =
     (case map_of PLAT_MAP key of
        Some v \<Rightarrow> Some v
      | None \<Rightarrow> map_option snd (find (\<lambda>kv. sublist (fst kv) key) PLAT_MAP))"

text \<open>The number that a string of decimal digits writes.\<close>

definition decimal_value :: "string \<Rightarrow> nat" where
  "decimal_value s = foldl (\<lambda>acc c. 10 * acc + (of_char c - 48)) 0 s"

text \<open>
  Every node of a value with its path, a node before its descendants: the members of an
  object under their keys, the elements of an array under their decimal indices.
\<close>

fun nodes_preorder :: "json \<Rightarrow> string list \<Rightarrow> (json \<times> string list) list"
  and member_nodes :: "pydict \<Rightarrow> string list \<Rightarrow> (json \<times> string list) list"
  and elem_nodes :: "json list \<Rightarrow> nat \<Rightarrow> string list \<Rightarrow> (json \<times> string list) list"
where
  "nodes_preorder (JObj d) p = (JObj d, p) # member_nodes d p"
| "nodes_preorder (JArr xs) p = (JArr xs, p) # elem_nodes xs 0 p"
| "nodes_preorder JNull p = [(JNull, p)]"
| "nodes_preorder (JBool b) p = [(JBool b, p)]"
| "nodes_preorder (JInt i) p = [(JInt i, p)]"
| "nodes_preorder (JFloat x) p = [(JFloat x, p)]"
| "nodes_preorder (JStr s) p = [(JStr s, p)]"
| "member_nodes [] p = []"
| "member_nodes ((k, v) # kvs) p = nodes_preorder v (p @ [k]) @ member_nodes kvs p"
| "elem_nodes [] i p = []"
| "elem_nodes (v # vs) i p = nodes_preorder v (p @ [str_nat i]) @ elem_nodes vs (Suc i) p"

text \<open>The object nodes of such a list, in its order.\<close>

fun objects_of :: "(json \<times> string list) list \<Rightarrow> (pydict \<times> string list) list" where
  "objects_of [] = []"
| "objects_of ((JObj d, p) # ns) = (d, p) # objects_of ns"
| "objects_of ((v, p) # ns) = objects_of ns"

text \<open>The number of object nodes of a value.\<close>

fun count_objects :: "json \<Rightarrow> nat"
  and count_members :: "pydict \<Rightarrow> nat"
  and count_elems :: "json list \<Rightarrow> nat"
where
  "count_objects (JObj d) = Suc (count_members d)"
| "count_objects (JArr xs) = count_elems xs"
| "count_objects JNull = 0"
| "count_objects (JBool b) = 0"
| "count_objects (JInt i) = 0"
| "count_objects (JFloat x) = 0"
| "count_objects (JStr s) = 0"
| "count_members [] = 0"
| "count_members ((k, v) # kvs) = count_objects v + count_members kvs"
| "count_elems [] = 0"
| "count_elems (v # vs) = count_objects v + count_elems vs"

text \<open>The rate the table holds for a base and a platform, if any.\<close>

definition cell :: "table \<Rightarrow> string \<Rightarrow> string \<Rightarrow> real option" where
  "cell t base plat = (case t base of None \<Rightarrow> None | Some row \<Rightarrow> row plat)"

text \<open>The elements of a list in the order of their first occurrence, each once.\<close>

fun first_seen :: "string list \<Rightarrow> string list" where
  "first_seen [] = []"
| "first_seen (x # xs) = x # removeAll x (first_seen xs)"

text \<open>
  For a sequence of triples (platform, base, rate): the rate of the last triple written
  for a base and a platform, and the bases of the triples of the seed venue.
\<close>

definition last_write ::
  "(string \<times> string \<times> real) list \<Rightarrow> string \<Rightarrow> string \<Rightarrow> real option" where
  "last_write recs base plat =
     map_of (rev (map (\<lambda>(pl, b, r). ((b, pl), r)) recs)) (base, plat)"

definition lighter_bases :: "(string \<times> string \<times> real) list \<Rightarrow> string list" where
  "lighter_bases recs = map (\<lambda>(pl, b, r). b) (filter (\<lambda>(pl, b, r). pl = ''Lighter'') recs)"

text \<open>The triples that the loop of \<open>fetch_agg\<close> accepts, in the order of the nodes.\<close>

definition accepted_records ::
  "(string \<Rightarrow> real option) \<Rightarrow> (pydict \<times> string list) list \<Rightarrow> (string \<times> string \<times> real) list" where
  "accepted_records str_float nodes =
     List.map_filter (\<lambda>(node, path). accepted (extract_record str_float node path)) nodes"














text \<open>
  A conversion that accepts no string, for the parameters \<open>str_float\<close> and \<open>iso_ts\<close>
  where a property is evaluated on values that hold no string to convert.
\<close>

definition no_parse :: "string \<Rightarrow> real option" where
  "no_parse s = None"

text \<open>An entry with a rate and a timestamp, and the values that count as a zero rate.\<close>

definition entry :: "real \<Rightarrow> int \<Rightarrow> json" where
  "entry r t = JObj [(''funding_rate'', JFloat r), (''timestamp'', JInt t)]"


text \<open>
  What the probe of one quote currency gives for a base: the rate read from the
  response to the request for the market of that base and quote, if any.
\<close>

definition quote_yield ::
  "(string \<Rightarrow> real option) \<Rightarrow> (string \<Rightarrow> real option) \<Rightarrow> (string \<Rightarrow> http_outcome) \<Rightarrow>
   string \<Rightarrow> string \<Rightarrow> real option" where
  "quote_yield str_float iso_ts client base q =
     quote_rate str_float iso_ts (client (PARADEX_URL (market_id base q)))"

text \<open>A client that knows one market and answers 404 for every other URL.\<close>

definition one_market_client :: "string \<Rightarrow> json \<Rightarrow> string \<Rightarrow> http_outcome" where
  "one_market_client market payload url =
     (if url = PARADEX_URL market then Response 200 (Some payload) else Response 404 None)"

section \<open>The conversion of integers\<close>

text \<open>
  \<open>int_to_float\<close> is exact below \<open>2\<^sup>5\<^sup>3\<close>, rounds to the nearest double with ties to
  even above it, and overflows from \<open>2\<^sup>1\<^sup>0\<^sup>2\<^sup>4\<close> on. An overflowing rate is caught at
  line 221 and the entry has no rate; an overflowing timestamp leaves
  \<^verbatim>\<open>extract_paradex_latest\<close> as an exception, which \<^verbatim>\<open>fetch_paradex_latest_for_base\<close>
  catches, so that the quote gives no rate.
\<close>

lemma bit_length_gt: "2 ^ k \<le> n \<Longrightarrow> k < bit_length n"
proof (induction n arbitrary: k rule: bit_length.induct)
  case (1 n)
  show ?case
  proof (cases k)
    case 0
    with 1(2) show ?thesis by (simp add: bit_length.simps[of n])
  next
    case (Suc j)
    with 1(2) have "2 * 2 ^ j \<le> n" by simp
    moreover have "(0::nat) < 2 ^ j" by simp
    ultimately have n: "n \<noteq> 0" and "2 ^ j \<le> n div 2" by linarith+
    with 1(1) have "j < bit_length (n div 2)" by simp
    with n Suc show ?thesis by (simp add: bit_length.simps[of n])
  qed
qed

lemma bit_length_le: "n \<noteq> 0 \<Longrightarrow> 2 ^ (bit_length n - 1) \<le> n"
proof (induction n rule: bit_length.induct)
  case (1 n)
  show ?case
  proof (cases "n div 2 = 0")
    case True
    with 1(2) show ?thesis by (simp add: bit_length.simps[of n] bit_length.simps[of 0])
  next
    case False
    with 1 have a: "2 ^ (bit_length (n div 2) - 1) \<le> n div 2" by simp
    from False obtain b where b: "bit_length (n div 2) = Suc b"
      by (auto simp: bit_length.simps[of "n div 2"])
    from a b have "2 ^ b \<le> n div 2" by simp
    then have "2 * 2 ^ b \<le> n" by linarith
    with 1(2) b show ?thesis by (simp add: bit_length.simps[of n])
  qed
qed

lemma int_to_float_exact: "\<bar>i\<bar> < 2 ^ 53 \<Longrightarrow> int_to_float i = Some (real_of_int i)"
  by (simp add: int_to_float_def nat_less_iff)

lemma int_to_float_overflow:
  assumes "2 ^ 1024 \<le> \<bar>i\<bar>"
  shows "int_to_float i = None"
proof -
  define a where "a = nat \<bar>i\<bar>"
  define e where "e = bit_length a - 53"
  define q where "q = a div 2 ^ e"
  define m where
    "m = (if 2 * (a mod 2 ^ e) > 2 ^ e \<or> (2 * (a mod 2 ^ e) = 2 ^ e \<and> odd q)
          then q + 1 else q) * 2 ^ e"
  from assms have a: "2 ^ 1024 \<le> a"
    unfolding a_def by (simp add: le_nat_iff)
  then have bl: "1024 < bit_length a" by (rule bit_length_gt)
  have "(2::nat) ^ 53 \<le> 2 ^ 1024" by (rule power_increasing) simp_all
  with a have big: "\<not> a < 2 ^ 53" by linarith
  from a have "a \<noteq> 0" by auto
  then have "2 ^ (bit_length a - 1) \<le> a" by (rule bit_length_le)
  moreover from bl have split: "bit_length a - 1 = 52 + e" by (simp add: e_def)
  ultimately have "2 ^ (52 + e) \<le> a" by simp
  then have "2 ^ 52 * 2 ^ e \<le> a" by (simp only: power_add)
  then have q52: "2 ^ 52 \<le> q"
    unfolding q_def
    by (simp only: less_eq_div_iff_mult_less_eq zero_less_power zero_less_numeral)
  from bl split have "1024 \<le> 52 + e" by simp
  then have "(2::nat) ^ 1024 \<le> 2 ^ (52 + e)" by (rule power_increasing) simp
  also have "\<dots> = 2 ^ 52 * 2 ^ e" by (rule power_add)
  also have "\<dots> \<le> q * 2 ^ e" using q52 by (rule mult_le_mono1)
  finally have mq: "2 ^ 1024 \<le> q * 2 ^ e" .
  have "q * 2 ^ e \<le> m" unfolding m_def by (simp only: split: if_splits) simp
  with mq have mm: "m \<ge> 2 ^ 1024" by (rule le_trans)
  have "int_to_float i =
      (if a < 2 ^ 53 then Some (real_of_int i)
       else if m \<ge> 2 ^ 1024 then None
            else Some (if i < 0 then - real m else real m))"
    by (simp only: int_to_float_def Let_def a_def e_def q_def m_def)
  then show ?thesis by (simp only: if_not_P[OF big] if_P[OF mm])
qed

lemmas bit_length_numeral =
  bit_length.simps[of "numeral n" for n] bit_length.simps[of 0]
  bit_length.simps[of "Suc 0"] bit_length.simps[of 1]

lemma int_to_float_rounds:
  "int_to_float 9007199254740992 = Some 9007199254740992"
  "int_to_float 9007199254740993 = Some 9007199254740992"
  "int_to_float 9007199254740995 = Some 9007199254740996"
  "int_to_float (- 9007199254740993) = Some (- 9007199254740992)"
  by (simp_all add: int_to_float_def Let_def bit_length_numeral)

lemma parse_ts_overflow:
  "2 ^ 1024 \<le> \<bar>i\<bar> \<Longrightarrow> parse_ts iso_ts (JInt i) = Inl OverflowError"
  by (simp add: int_to_float_overflow del: power_numeral)

lemma overflow_entry:
  assumes "2 ^ 1024 \<le> \<bar>i\<bar>"
  shows "entry_rate str_float [(''funding_rate'', JInt i)] = None"
    and "extract_paradex_latest str_float iso_ts
           (JArr [JObj [(''funding_rate'', JFloat 1), (''timestamp'', JInt i)]])
         = Inl OverflowError"
    and "quote_rate str_float iso_ts (Response 200 (Some
           (JArr [JObj [(''funding_rate'', JFloat 1), (''timestamp'', JInt i)]])))
         = None"
proof -
  from assms have nz: "i \<noteq> 0" by auto
  from assms have o: "int_to_float i = None" by (rule int_to_float_overflow)
  from nz o show "entry_rate str_float [(''funding_rate'', JInt i)] = None"
    by (simp add: entry_rate_def dict_get_def py_or_def)
  from o show e: "extract_paradex_latest str_float iso_ts
           (JArr [JObj [(''funding_rate'', JFloat 1), (''timestamp'', JInt i)]])
         = Inl OverflowError"
    by (simp add: extract_paradex_latest_def payload_items_def entry_rate_def entry_ts_def
        dict_get_def py_or_def ts_or_def)
  show "quote_rate str_float iso_ts (Response 200 (Some
           (JArr [JObj [(''funding_rate'', JFloat 1), (''timestamp'', JInt i)]])))
         = None"
    by (simp add: quote_rate_def is_success_def e)
qed

section \<open>Rate normalisation\<close>

text \<open>
  C1. On a value that \<^verbatim>\<open>float\<close> accepts, with \<open>v\<close> the float it gives, \<open>coerce_rate\<close>
  takes \<open>v / 100\<close> when \<open>1 < |v| \<le> 100\<close> and \<open>v\<close> itself when \<open>|v| \<le> 1\<close>, and returns
  no value whenever the magnitude after that scaling is above \<open>0.5\<close> (which is also the
  case of every \<open>|v| > 100\<close>). The input \<open>1.0\<close> is not divided and gives no value;
  \<open>3.2\<close> gives \<open>0.032\<close>, \<open>0.015\<close> gives \<open>0.015\<close> and \<open>60\<close> gives no value.
\<close>

theorem coerce_rate_normalizes:
  assumes "py_float str_float val = Some v"
  shows "(1 < \<bar>v\<bar> \<and> \<bar>v\<bar> \<le> 100 \<longrightarrow>
            coerce_rate str_float val = (if \<bar>v / 100\<bar> > 0.5 then None else Some (v / 100)))
       \<and> (\<bar>v\<bar> \<le> 1 \<longrightarrow>
            coerce_rate str_float val = (if \<bar>v\<bar> > 0.5 then None else Some v))
       \<and> (100 < \<bar>v\<bar> \<longrightarrow> coerce_rate str_float val = None)
       \<and> coerce_rate str_float (JFloat 1.0) = None
       \<and> coerce_rate str_float (JFloat 3.2) = Some 0.032
       \<and> coerce_rate str_float (JFloat 0.015) = Some 0.015
       \<and> coerce_rate str_float (JInt 60) = None"
proof -
  from assms have "val \<noteq> JNull" by auto
  with assms have
    "1 < \<bar>v\<bar> \<and> \<bar>v\<bar> \<le> 100 \<longrightarrow>
       coerce_rate str_float val = (if \<bar>v / 100\<bar> > 0.5 then None else Some (v / 100))"
    "\<bar>v\<bar> \<le> 1 \<longrightarrow> coerce_rate str_float val = (if \<bar>v\<bar> > 0.5 then None else Some v)"
    "100 < \<bar>v\<bar> \<longrightarrow> coerce_rate str_float val = None"
    by (auto simp: coerce_rate_def)
  moreover have "coerce_rate str_float (JFloat 1.0) = None"
    "coerce_rate str_float (JFloat 3.2) = Some 0.032"
    "coerce_rate str_float (JFloat 0.015) = Some 0.015"
    "coerce_rate str_float (JInt 60) = None"
    by (simp_all add: coerce_rate_def int_to_float_def)
  ultimately show ?thesis by blast
qed

theorem coerce_rate_normalizes_witness:
  "py_float no_parse (JFloat 42) = Some 42
   \<and> coerce_rate no_parse (JFloat 42) = Some (42 / 100)"
proof -
  have h: "py_float no_parse (JFloat 42) = Some 42" by simp
  show ?thesis using h coerce_rate_normalizes [OF h] by simp
qed

section \<open>Base extraction\<close>

lemma split_tokens: "py_split CHR ''-'' (replace_dunder (replace_slash s)) = sep_tokens s"
  by (induction s rule: sep_tokens.induct) (auto simp: replace_slash_def)

lemma not_space_seps:
  "\<not> is_space CHR ''_''" "\<not> is_space CHR ''/''" "\<not> is_space CHR ''-''"
  by (simp_all add: is_space_def ascii_whitespace_def)

lemma norm_seps_Nil: "norm_seps [] = []"
  by (simp add: norm_seps_def replace_slash_def)

lemma norm_seps_single: "norm_seps [a] = (if a = CHR ''/'' then [CHR ''-''] else [a])"
  by (simp add: norm_seps_def replace_slash_def)

lemma norm_seps_Cons2:
  "norm_seps (a # b # cs) =
     (if a = CHR ''/'' then CHR ''-'' # norm_seps (b # cs)
      else if a = CHR ''_'' \<and> b = CHR ''_'' then CHR ''-'' # norm_seps cs
      else a # norm_seps (b # cs))"
  by (simp add: norm_seps_def replace_slash_def)

lemma norm_seps_space_Cons: "is_space a \<Longrightarrow> norm_seps (a # cs) = a # norm_seps cs"
  using not_space_seps
  by (cases cs) (auto simp: norm_seps_Nil norm_seps_single norm_seps_Cons2)

lemma norm_seps_hd:
  "\<not> is_space a \<Longrightarrow> norm_seps (a # cs) \<noteq> [] \<and> \<not> is_space (hd (norm_seps (a # cs)))"
  using not_space_seps
  by (cases cs) (auto simp: norm_seps_single norm_seps_Cons2)

lemma norm_seps_lstrip: "norm_seps (dropWhile is_space x) = dropWhile is_space (norm_seps x)"
proof (induction x)
  case Nil
  then show ?case by (simp add: norm_seps_Nil)
next
  case (Cons a x)
  show ?case
  proof (cases "is_space a")
    case True
    then show ?thesis using Cons by (simp add: norm_seps_space_Cons)
  next
    case False
    with norm_seps_hd[OF False, of x] show ?thesis
      by (cases "norm_seps (a # x)") auto
  qed
qed

lemma replace_dunder_id: "\<forall>c\<in>set w. c \<noteq> CHR ''_'' \<Longrightarrow> replace_dunder w = w"
  by (induction w rule: replace_dunder.induct) simp_all

lemma replace_dunder_append:
  "\<forall>c\<in>set w. c \<noteq> CHR ''_'' \<Longrightarrow> replace_dunder (x @ w) = replace_dunder x @ w"
proof (induction x rule: replace_dunder.induct)
  case (1 a b cs)
  then show ?case by simp
next
  case 3
  then show ?case by (simp add: replace_dunder_id)
next
  case (2 v)
  show ?case
  proof (cases w)
    case Nil
    then show ?thesis by simp
  next
    case (Cons b w')
    with 2 have "b \<noteq> CHR ''_''" and "replace_dunder (b # w') = b # w'"
      using replace_dunder_id[of "b # w'"] by simp_all
    with Cons show ?thesis by simp
  qed
qed

lemma norm_seps_append_space:
  assumes "\<forall>c\<in>set w. is_space c"
  shows "norm_seps (x @ w) = norm_seps x @ w"
proof -
  from assms not_space_seps
  have a: "\<forall>c\<in>set w. c \<noteq> CHR ''_''" and b: "\<forall>c\<in>set w. c \<noteq> CHR ''/''"
    by auto
  from b have "replace_slash w = w"
    by (induction w) (simp_all add: replace_slash_def)
  with a show ?thesis
    by (simp add: norm_seps_def replace_slash_def replace_dunder_append)
qed

lemma norm_seps_last:
  "x \<noteq> [] \<Longrightarrow> \<not> is_space (last x) \<Longrightarrow>
   norm_seps x \<noteq> [] \<and> \<not> is_space (last (norm_seps x))"
proof (induction x rule: sep_tokens.induct)
  case (1 a b cs)
  show ?case
  proof (cases "a = CHR ''_'' \<and> b = CHR ''_'' \<and> cs = []")
    case True
    then show ?thesis using not_space_seps by (simp add: norm_seps_Cons2 norm_seps_Nil)
  next
    case False
    with 1 show ?thesis by (auto simp: norm_seps_Cons2)
  qed
next
  case (2 a)
  then show ?case using not_space_seps by (simp add: norm_seps_single)
next
  case 3
  then show ?case by simp
qed

lemma norm_seps_rstrip:
  "rev (dropWhile is_space (rev (norm_seps x))) = norm_seps (rev (dropWhile is_space (rev x)))"
proof -
  define y where "y = rev (dropWhile is_space (rev x))"
  define w where "w = rev (takeWhile is_space (rev x))"
  have x: "x = y @ w"
    unfolding y_def w_def by (metis rev_append rev_rev_ident takeWhile_dropWhile_id)
  have w: "\<forall>c\<in>set w. is_space c"
    unfolding w_def by (auto dest: set_takeWhileD)
  have ny: "dropWhile is_space (rev (norm_seps y)) = rev (norm_seps y)"
  proof (cases "y = []")
    case True
    then show ?thesis by (simp add: norm_seps_Nil)
  next
    case False
    then have "dropWhile is_space (rev x) \<noteq> []" by (simp add: y_def)
    then have "\<not> is_space (hd (dropWhile is_space (rev x)))" by (rule hd_dropWhile)
    then have "\<not> is_space (last y)" using False by (simp add: y_def last_rev)
    with False have "norm_seps y \<noteq> []" and "\<not> is_space (last (norm_seps y))"
      using norm_seps_last[of y] by simp_all
    then show ?thesis by (cases "rev (norm_seps y)") (auto simp: hd_rev)
  qed
  have "rev (dropWhile is_space (rev (norm_seps x))) =
        rev (dropWhile is_space (rev w @ rev (norm_seps y)))"
    using w by (simp add: x norm_seps_append_space)
  also have "\<dots> = rev (dropWhile is_space (rev (norm_seps y)))"
  proof -
    have "dropWhile is_space (rev w @ rev (norm_seps y)) = dropWhile is_space (rev (norm_seps y))"
      by (rule dropWhile_append2) (use w in simp)
    then show ?thesis by simp
  qed
  also have "\<dots> = norm_seps y" by (simp add: ny)
  finally show ?thesis by (simp add: y_def)
qed

lemma norm_seps_strip: "py_strip (norm_seps x) = norm_seps (py_strip x)"
  by (simp add: py_strip_def norm_seps_rstrip norm_seps_lstrip)

lemma base_from_symbol_tokens:
  "base_from_symbol symbol =
     (case first_nonempty (sep_tokens (py_strip (py_upper symbol))) of
        Some t \<Rightarrow> t
      | None \<Rightarrow>
          (if py_strip (py_upper symbol) = [] then ''?''
           else replace_dunder (replace_slash (py_strip (py_upper symbol)))))"
proof -
  let ?u = "py_strip (py_upper symbol)"
  have s: "py_strip (replace_dunder (replace_slash (py_upper symbol))) = norm_seps ?u"
    using norm_seps_strip[of "py_upper symbol"] by (simp add: norm_seps_def)
  have e: "norm_seps ?u = [] \<longleftrightarrow> ?u = []"
    by (cases ?u rule: sep_tokens.cases)
       (auto simp: norm_seps_Cons2 norm_seps_single norm_seps_Nil)
  have t: "py_split CHR ''-'' (norm_seps ?u) = sep_tokens ?u"
    by (simp add: norm_seps_def split_tokens)
  show ?thesis
    unfolding base_from_symbol_def s Let_def t first_nonempty_def
    using e by (auto simp: norm_seps_def split: list.splits)
qed

text \<open>
  C6, as the script has it. \<open>base_from_symbol\<close> upper-cases the symbol, trims the white
  space around it and returns the first non-empty piece between the separators \<open>-\<close>,
  \<open>/\<close> and \<open>__\<close>. When there is no such piece it returns \<open>?\<close> for a symbol that is
  empty after the trimming, and else the trimmed symbol with its separators written as
  dashes. \<open>BTC/USDT\<close> gives \<open>BTC\<close>, \<open>eth-perp\<close> gives \<open>ETH\<close>, \<open>A__B-C\<close> gives \<open>A\<close> and the
  empty string gives \<open>?\<close>.
\<close>

theorem base_from_symbol_first_token:
  "base_from_symbol symbol =
     (case first_nonempty (sep_tokens (py_strip (py_upper symbol))) of
        Some t \<Rightarrow> t
      | None \<Rightarrow>
          (if py_strip (py_upper symbol) = [] then ''?''
           else replace_dunder (replace_slash (py_strip (py_upper symbol)))))
   \<and> base_from_symbol ''BTC/USDT'' = ''BTC''
   \<and> base_from_symbol ''eth-perp'' = ''ETH''
   \<and> base_from_symbol ''A__B-C'' = ''A''
   \<and> base_from_symbol '''' = ''?''"
proof (intro conjI)
  show "base_from_symbol symbol =
     (case first_nonempty (sep_tokens (py_strip (py_upper symbol))) of
        Some t \<Rightarrow> t
      | None \<Rightarrow>
          (if py_strip (py_upper symbol) = [] then ''?''
           else replace_dunder (replace_slash (py_strip (py_upper symbol)))))"
    by (rule base_from_symbol_tokens)
  show "base_from_symbol ''BTC/USDT'' = ''BTC''" by code_simp
  show "base_from_symbol ''eth-perp'' = ''ETH''" by code_simp
  show "base_from_symbol ''A__B-C'' = ''A''" by code_simp
  show "base_from_symbol '''' = ''?''" by code_simp
qed

text \<open>
  C6, as the claim words it, without the trimming. The symbol \<^verbatim>\<open>" btc"\<close>, with a
  space in front, has the one piece \<^verbatim>\<open>" BTC"\<close> after upper-casing and splitting; the
  script returns \<^verbatim>\<open>"BTC"\<close>.
\<close>

theorem base_from_symbol_untrimmed_counterexample:
  "first_nonempty (sep_tokens (py_upper '' btc'')) = Some '' BTC''
   \<and> base_from_symbol '' btc'' = ''BTC''"
  by code_simp

section \<open>Platform labels\<close>

lemma codes_upper: "map of_char ascii_uppercase = [65..<91::nat]"
  by code_simp

lemma codes_lower: "map of_char ascii_lowercase = [97..<123::nat]"
  by code_simp

lemma codes_digits: "map of_char ascii_digits = [48..<58::nat]"
  by code_simp

lemma in_table: "c \<in> set xs \<longleftrightarrow> (of_char c :: nat) \<in> set (map of_char xs)"
  by auto

lemma in_upper:
  "c \<in> set ascii_uppercase \<longleftrightarrow> 65 \<le> (of_char c :: nat) \<and> (of_char c :: nat) < 91"
  unfolding in_table[of c ascii_uppercase] codes_upper
  by (simp only: set_upt atLeastLessThan_iff)

lemma in_lower:
  "c \<in> set ascii_lowercase \<longleftrightarrow> 97 \<le> (of_char c :: nat) \<and> (of_char c :: nat) < 123"
  unfolding in_table[of c ascii_lowercase] codes_lower
  by (simp only: set_upt atLeastLessThan_iff)

lemma in_digits:
  "c \<in> set ascii_digits \<longleftrightarrow> 48 \<le> (of_char c :: nat) \<and> (of_char c :: nat) < 58"
  unfolding in_table[of c ascii_digits] codes_digits
  by (simp only: set_upt atLeastLessThan_iff)

lemma is_alnum_code: "is_alnum c = alnum_code (of_char c)"
  unfolding is_alnum_def alnum_code_def set_append Un_iff in_upper in_lower in_digits
  by arith

lemma lower_char_code: "of_char (lower_char c) = lower_code (of_char c)"
proof (cases "c \<in> set ascii_uppercase")
  case True
  then obtain i where i: "i < length ascii_uppercase" "c = ascii_uppercase ! i"
    by (auto simp: in_set_conv_nth)
  from i(1) have n26: "i < 26" by (simp add: ascii_uppercase_def)
  have d: "distinct ascii_uppercase" by (simp add: ascii_uppercase_def)
  have l: "length ascii_uppercase = length ascii_lowercase"
    by (simp add: ascii_uppercase_def ascii_lowercase_def)
  have m: "map_of (zip ascii_uppercase ascii_lowercase) c = Some (ascii_lowercase ! i)"
  proof -
    from i(1) l have "i < length ascii_lowercase" by simp
    from map_of_zip_nth[OF l d this] show ?thesis unfolding i(2) .
  qed
  have "(of_char (ascii_lowercase ! i) :: nat) = map of_char ascii_lowercase ! i"
    using i(1) l by simp
  also have "\<dots> = 97 + i" unfolding codes_lower by (rule nth_upt) (use n26 in linarith)
  finally have lo: "(of_char (ascii_lowercase ! i) :: nat) = 97 + i" .
  have "(of_char c :: nat) = map of_char ascii_uppercase ! i"
    using i by simp
  also have "\<dots> = 65 + i" unfolding codes_upper by (rule nth_upt) (use n26 in linarith)
  finally have up: "(of_char c :: nat) = 65 + i" .
  from n26 m lo up show ?thesis by (simp add: lower_char_def lower_code_def)
next
  case False
  then have "map_of (zip ascii_uppercase ascii_lowercase) c = None"
    by (simp add: map_of_zip_is_None ascii_uppercase_def ascii_lowercase_def)
  moreover from False have "\<not> (65 \<le> (of_char c :: nat) \<and> (of_char c :: nat) \<le> 90)"
    unfolding in_upper by arith
  ultimately show ?thesis by (simp add: lower_char_def lower_code_def)
qed

lemma clean_alnum_codes:
  "map of_char (clean_alnum raw) = map lower_code (filter alnum_code (map of_char raw))"
  by (induction raw) (simp_all add: clean_alnum_def py_lower_def is_alnum_code lower_char_code)

lemma py_in_sublist: "py_in k key \<longleftrightarrow> sublist k key"
  by (induction key) (auto simp: sublist_Cons_right)

lemma first_contained_find:
  "first_contained tbl key = map_option snd (find (\<lambda>kv. sublist (fst kv) key) tbl)"
  by (induction tbl key rule: first_contained.induct) (simp_all add: py_in_sublist)

lemma resolve_key_Nil: "resolve_key [] = None"
  by (simp add: resolve_key_def PLAT_MAP_def)

lemma norm_platform_label_key: "norm_platform_label (Some raw) = resolve_key (clean_alnum raw)"
proof (cases "raw = []")
  case True
  then show ?thesis
    by (simp add: norm_platform_label_def resolve_key_Nil clean_alnum_def py_lower_def)
next
  case False
  then show ?thesis
    by (simp add: norm_platform_label_def resolve_key_def first_contained_find Let_def
        split: option.splits)
qed

text \<open>
  C7. \<open>norm_platform_label\<close> normalises the label, and resolves the normalised label by
  an exact match in the alias table, else by the first table key that occurs in it,
  else not at all. The normalised label is the label without the characters that are
  not alphanumeric, in lower case: its character codes are the lower-cased alphanumeric
  codes of the label. \<open>zkLighter\<close> resolves to Lighter, \<open>HyperliquidV2\<close> to Hyperliquid,
  and \<open>dYdX\<close> is unresolved. A label that matches only once it is stripped and
  lower-cased (\<open>L.i.g.h.t.e.r\<close>, \<open>HYPER\<close>), and labels that only contain a key
  (\<open>my-lighter-dex\<close>, \<open>HyperX\<close>), resolve too; of two contained keys the first of the
  table wins.
\<close>

theorem norm_platform_label_resolves:
  "norm_platform_label (Some raw) = resolve_key (clean_alnum raw)
   \<and> map of_char (clean_alnum raw) = map lower_code (filter alnum_code (map of_char raw))
   \<and> norm_platform_label None = None
   \<and> norm_platform_label (Some []) = None
   \<and> norm_platform_label (Some ''zkLighter'') = Some ''Lighter''
   \<and> norm_platform_label (Some ''HyperliquidV2'') = Some ''Hyperliquid''
   \<and> norm_platform_label (Some ''dYdX'') = None
   \<and> clean_alnum ''zk-Lighter (v2)!'' = ''zklighterv2''
   \<and> norm_platform_label (Some ''L.i.g.h.t.e.r'') = Some ''Lighter''
   \<and> norm_platform_label (Some ''HYPER'') = Some ''Hyperliquid''
   \<and> norm_platform_label (Some ''my-lighter-dex'') = Some ''Lighter''
   \<and> norm_platform_label (Some ''HyperX'') = Some ''Hyperliquid''
   \<and> norm_platform_label (Some ''hyper_lighter'') = Some ''Lighter''
   \<and> norm_platform_label (Some ''lihgter'') = None"
proof (intro conjI)
  show "norm_platform_label (Some raw) = resolve_key (clean_alnum raw)"
    by (rule norm_platform_label_key)
  show "map of_char (clean_alnum raw) = map lower_code (filter alnum_code (map of_char raw))"
    by (rule clean_alnum_codes)
  show "norm_platform_label None = None" by (simp add: norm_platform_label_def)
  show "norm_platform_label (Some []) = None" by (simp add: norm_platform_label_def)
  show "norm_platform_label (Some ''zkLighter'') = Some ''Lighter''" by code_simp
  show "norm_platform_label (Some ''HyperliquidV2'') = Some ''Hyperliquid''" by code_simp
  show "norm_platform_label (Some ''dYdX'') = None" by code_simp
  show "clean_alnum ''zk-Lighter (v2)!'' = ''zklighterv2''" by code_simp
  show "norm_platform_label (Some ''L.i.g.h.t.e.r'') = Some ''Lighter''" by code_simp
  show "norm_platform_label (Some ''HYPER'') = Some ''Hyperliquid''" by code_simp
  show "norm_platform_label (Some ''my-lighter-dex'') = Some ''Lighter''" by code_simp
  show "norm_platform_label (Some ''HyperX'') = Some ''Hyperliquid''" by code_simp
  show "norm_platform_label (Some ''hyper_lighter'') = Some ''Lighter''" by code_simp
  show "norm_platform_label (Some ''lihgter'') = None" by code_simp
qed

section \<open>The tree walker\<close>

lemma objects_of_append: "objects_of (xs @ ys) = objects_of xs @ objects_of ys"
  by (induction xs rule: objects_of.induct) simp_all

lemma traverse_objects:
  "traverse v p = objects_of (nodes_preorder v p)"
  "traverse_items d p = objects_of (member_nodes d p)"
  "traverse_elems xs i p = objects_of (elem_nodes xs i p)"
  by (induction v p and d p and xs i p rule: traverse_traverse_items_traverse_elems.induct)
     (simp_all add: objects_of_append)

lemma traverse_length:
  "length (traverse v p) = count_objects v"
  "length (traverse_items d p) = count_members d"
  "length (traverse_elems xs i p) = count_elems xs"
  by (induction v p and d p and xs i p rule: traverse_traverse_items_traverse_elems.induct)
     simp_all

lemma traverse_items_concat:
  "traverse_items d p = concat (map (\<lambda>(k, v). traverse v (p @ [k])) d)"
  by (induction d) auto

lemma traverse_elems_concat:
  "traverse_elems xs i p =
     concat (map (\<lambda>(j, v). traverse v (p @ [str_nat j])) (enumerate i xs))"
  by (induction xs arbitrary: i) simp_all

lemma digit_code: "d < 10 \<Longrightarrow> (of_char (ascii_digits ! d) :: nat) = 48 + d"
proof -
  assume d: "d < 10"
  have "length ascii_digits = 10" by (simp add: ascii_digits_def)
  with d have "(of_char (ascii_digits ! d) :: nat) = map of_char ascii_digits ! d"
    by simp
  also have "\<dots> = 48 + d" unfolding codes_digits by (rule nth_upt) (use d in linarith)
  finally show ?thesis .
qed

lemma decimal_value_snoc:
  "decimal_value (s @ [c]) = 10 * decimal_value s + (of_char c - 48)"
  by (simp add: decimal_value_def)

lemma str_nat_decimal: "decimal_value (str_nat n) = n"
proof (induction n rule: str_nat.induct)
  case (1 n)
  show ?case
  proof (cases "n < 10")
    case True
    then show ?thesis
      by (subst str_nat.simps) (simp add: decimal_value_def digit_code)
  next
    case False
    with 1 have ih: "decimal_value (str_nat (n div 10)) = n div 10" by simp
    have "n mod 10 < 10" by simp
    then have "(of_char (ascii_digits ! (n mod 10)) :: nat) = 48 + n mod 10"
      by (rule digit_code)
    with False ih show ?thesis
      by (subst str_nat.simps) (simp add: decimal_value_snoc)
  qed
qed

lemma str_nat_digits: "list_all (\<lambda>c. c \<in> set ascii_digits) (str_nat n)"
proof (induction n rule: str_nat.induct)
  case (1 n)
  have m: "ascii_digits ! (n mod 10) \<in> set ascii_digits"
    by (rule nth_mem) (simp add: ascii_digits_def)
  show ?case
  proof (cases "n < 10")
    case True
    then have "ascii_digits ! n \<in> set ascii_digits"
      by (intro nth_mem) (simp add: ascii_digits_def)
    with True show ?thesis by (subst str_nat.simps) simp
  next
    case False
    with 1 m show ?thesis by (subst str_nat.simps) simp
  qed
qed

lemma str_nat_hd: "str_nat n \<noteq> [] \<and> (hd (str_nat n) = CHR ''0'' \<longleftrightarrow> n = 0)"
proof (induction n rule: str_nat.induct)
  case (1 n)
  show ?case
  proof (cases "n < 10")
    case True
    have "(of_char (ascii_digits ! n) :: nat) = 48 + n" using True by (rule digit_code)
    moreover have "(of_char CHR ''0'' :: nat) = 48" by simp
    ultimately have "ascii_digits ! n = CHR ''0'' \<longleftrightarrow> n = 0"
      by (metis add_cancel_right_right of_char_eq_iff)
    with True show ?thesis by (subst (1 2) str_nat.simps) simp
  next
    case False
    then have "n div 10 \<noteq> 0" by simp
    with False 1 show ?thesis by (subst (1 2) str_nat.simps) auto
  qed
qed

text \<open>
  C4. What \<open>traverse\<close> yields for a value is the list of its object nodes with their
  paths, in pre-order: one pair for each object node and none for a scalar or an array.
  An object is yielded before what its members yield, each under the path extended by
  its key; an array yields what its elements yield, each under the path extended by its
  index written in decimal: a non-empty string of digits that writes the index, with
  no leading zero. For \<^verbatim>\<open>{"a":{"b":{"c":1}}}\<close> the paths are \<open>()\<close>, \<open>("a")\<close>,
  \<open>("a","b")\<close>; for \<^verbatim>\<open>[{}, 7, {"k": ["s", {}]}]\<close> under the path \<open>("p")\<close> they are
  \<open>("p","0")\<close>, \<open>("p","2")\<close> and \<open>("p","2","k","1")\<close>; the object after ten nulls in an
  array has the path \<open>("10")\<close>.
\<close>

theorem traverse_preorder_objects:
  "traverse v p = objects_of (nodes_preorder v p)
   \<and> length (traverse v p) = count_objects v
   \<and> traverse (JObj d) p = (d, p) # concat (map (\<lambda>(k, x). traverse x (p @ [k])) d)
   \<and> traverse (JArr xs) p =
       concat (map (\<lambda>(j, x). traverse x (p @ [str_nat j])) (enumerate 0 xs))
   \<and> decimal_value (str_nat n) = n
   \<and> list_all (\<lambda>c. c \<in> set ascii_digits) (str_nat n)
   \<and> str_nat n \<noteq> []
   \<and> (hd (str_nat n) = CHR ''0'') = (n = 0)
   \<and> str_nat 12 = ''12''
   \<and> map snd (traverse (JObj [(''a'', JObj [(''b'', JObj [(''c'', JInt 1)])])]) [])
       = [[], [''a''], [''a'', ''b'']]
   \<and> traverse (JArr [JObj [], JInt 7, JObj [(''k'', JArr [JStr ''s'', JObj []])]]) [''p'']
       = [([], [''p'', ''0'']),
          ([(''k'', JArr [JStr ''s'', JObj []])], [''p'', ''2'']),
          ([], [''p'', ''2'', ''k'', ''1''])]
   \<and> traverse (JArr [JNull, JNull, JNull, JNull, JNull, JNull, JNull, JNull, JNull, JNull,
                     JObj []]) []
       = [([], [''10''])]"
proof (intro conjI)
  show "traverse v p = objects_of (nodes_preorder v p)" by (rule traverse_objects)
  show "length (traverse v p) = count_objects v" by (rule traverse_length)
  show "traverse (JObj d) p = (d, p) # concat (map (\<lambda>(k, x). traverse x (p @ [k])) d)"
    by (simp add: traverse_items_concat)
  show "traverse (JArr xs) p =
       concat (map (\<lambda>(j, x). traverse x (p @ [str_nat j])) (enumerate 0 xs))"
    by (simp add: traverse_elems_concat)
  show "decimal_value (str_nat n) = n" by (rule str_nat_decimal)
  show "list_all (\<lambda>c. c \<in> set ascii_digits) (str_nat n)" by (rule str_nat_digits)
  show "str_nat n \<noteq> []" using str_nat_hd by blast
  show "(hd (str_nat n) = CHR ''0'') = (n = 0)" using str_nat_hd by blast
  show "str_nat 12 = ''12''" by code_simp
  show "map snd (traverse (JObj [(''a'', JObj [(''b'', JObj [(''c'', JInt 1)])])]) [])
       = [[], [''a''], [''a'', ''b'']]"
    by simp
  show "traverse (JArr [JObj [], JInt 7, JObj [(''k'', JArr [JStr ''s'', JObj []])]]) [''p'']
       = [([], [''p'', ''0'']),
          ([(''k'', JArr [JStr ''s'', JObj []])], [''p'', ''2'']),
          ([], [''p'', ''2'', ''k'', ''1''])]"
    by code_simp
  show "traverse (JArr [JNull, JNull, JNull, JNull, JNull, JNull, JNull, JNull, JNull, JNull,
                     JObj []]) []
       = [([], [''10''])]"
    by code_simp
qed

section \<open>The reconciler\<close>

lemma cell_reconcile:
  "cell (by_base (reconcile (pl, b, r) st)) b' p' =
     (if b' = b \<and> p' = pl then Some r else cell (by_base st) b' p')"
  by (auto simp: reconcile_def cell_def set_cell_def setdefault_row_def Let_def
      split: option.splits)

lemma bases_reconcile:
  "bases_lighter (reconcile (pl, b, r) st) =
     (if pl = ''Lighter'' \<and> b \<notin> set (bases_lighter st) then bases_lighter st @ [b]
      else bases_lighter st)"
  by (simp add: reconcile_def Let_def)

lemma cell_fold:
  "cell (by_base (fold reconcile recs st)) b p =
     (case last_write recs b p of Some r \<Rightarrow> Some r | None \<Rightarrow> cell (by_base st) b p)"
proof (induction recs rule: rev_induct)
  case Nil
  then show ?case by (simp add: last_write_def)
next
  case (snoc x xs)
  obtain pl b' r where x: "x = (pl, b', r)" by (cases x)
  show ?case using snoc
    by (auto simp: x cell_reconcile last_write_def)
qed

lemma first_seen_set: "set (first_seen xs) = set xs"
  by (induction xs) auto

lemma first_seen_distinct: "distinct (first_seen xs)"
  by (induction xs) (auto simp: distinct_removeAll)

lemma first_seen_snoc:
  "first_seen (xs @ [x]) = (if x \<in> set xs then first_seen xs else first_seen xs @ [x])"
proof (induction xs)
  case Nil
  then show ?case by simp
next
  case (Cons a xs)
  then show ?case by (auto simp: first_seen_set)
qed

lemma bases_fold:
  "bases_lighter (fold reconcile recs init_state) = first_seen (lighter_bases recs)"
proof (induction recs rule: rev_induct)
  case Nil
  then show ?case by (simp add: init_state_def lighter_bases_def)
next
  case (snoc x xs)
  obtain pl b' r where x: "x = (pl, b', r)" by (cases x)
  have s: "set (first_seen (lighter_bases xs)) = set (lighter_bases xs)"
    by (rule first_seen_set)
  show ?case using snoc s
    by (auto simp: x bases_reconcile lighter_bases_def first_seen_snoc)
qed

lemma agg_loop_fold:
  "agg_loop pf nodes st = fold reconcile (accepted_records pf nodes) st"
  unfolding accepted_records_def
  by (induction pf nodes st rule: agg_loop.induct)
     (auto simp: map_filter_simps split: option.splits)

lemma seed_inv_reconcile:
  assumes "set (bases_lighter st) = {b. cell (by_base st) b ''Lighter'' \<noteq> None}"
  shows "set (bases_lighter (reconcile rec st)) =
           {b. cell (by_base (reconcile rec st)) b ''Lighter'' \<noteq> None}"
proof -
  obtain pl b r where x: "rec = (pl, b, r)" by (cases rec)
  show ?thesis using assms unfolding x
    by (auto simp: cell_reconcile bases_reconcile)
qed

lemma seed_inv_fold:
  "set (bases_lighter st) = {b. cell (by_base st) b ''Lighter'' \<noteq> None} \<Longrightarrow>
   set (bases_lighter (fold reconcile recs st)) =
     {b. cell (by_base (fold reconcile recs st)) b ''Lighter'' \<noteq> None}"
  by (induction recs arbitrary: st) (simp_all add: seed_inv_reconcile)

lemma seed_inv_init: "set (bases_lighter init_state) = {b. cell (by_base init_state) b ''Lighter'' \<noteq> None}"
  by (simp add: init_state_def cell_def)

lemma cell_fold_init:
  "cell (by_base (fold reconcile recs init_state)) b p = last_write recs b p"
proof -
  have "cell (by_base init_state) b p = None" by (simp add: init_state_def cell_def)
  then show ?thesis by (simp add: cell_fold split: option.splits)
qed

text \<open>
  C5. Folding any sequence of triples (platform, base, rate) into the empty table, as
  lines 176 to 179 do for each accepted triple: the table holds, for a base and a
  platform, the rate of the last triple written for that pair, and nothing for a pair
  never written; the seed list is the bases of the triples of Lighter, in the order of
  their first occurrence, each once. The loop of \<open>fetch_agg\<close> is this fold over the
  triples it accepts.
\<close>

theorem reconcile_last_write_first_seen:
  "cell (by_base (fold reconcile recs init_state)) b p = last_write recs b p
   \<and> bases_lighter (fold reconcile recs init_state) = first_seen (lighter_bases recs)
   \<and> distinct (bases_lighter (fold reconcile recs init_state))
   \<and> agg_loop str_float nodes init_state
       = fold reconcile (accepted_records str_float nodes) init_state
   \<and> cell (by_base (fold reconcile
         [(''Lighter'', ''BTC'', 1), (''Hyperliquid'', ''BTC'', 2), (''Lighter'', ''ETH'', 3),
          (''Lighter'', ''BTC'', 4)] init_state)) ''BTC'' ''Lighter'' = Some 4
   \<and> bases_lighter (fold reconcile
         [(''Lighter'', ''BTC'', 1), (''Hyperliquid'', ''BTC'', 2), (''Lighter'', ''ETH'', 3),
          (''Lighter'', ''BTC'', 4)] init_state) = [''BTC'', ''ETH'']"
proof (intro conjI)
  show "cell (by_base (fold reconcile recs init_state)) b p = last_write recs b p"
    by (rule cell_fold_init)
  show "bases_lighter (fold reconcile recs init_state) = first_seen (lighter_bases recs)"
    by (rule bases_fold)
  show "distinct (bases_lighter (fold reconcile recs init_state))"
    by (simp add: bases_fold first_seen_distinct)
  show "agg_loop str_float nodes init_state
       = fold reconcile (accepted_records str_float nodes) init_state"
    by (rule agg_loop_fold)
  show "cell (by_base (fold reconcile
         [(''Lighter'', ''BTC'', 1), (''Hyperliquid'', ''BTC'', 2), (''Lighter'', ''ETH'', 3),
          (''Lighter'', ''BTC'', 4)] init_state)) ''BTC'' ''Lighter'' = Some 4"
    unfolding cell_fold_init by (simp add: last_write_def)
  show "bases_lighter (fold reconcile
         [(''Lighter'', ''BTC'', 1), (''Hyperliquid'', ''BTC'', 2), (''Lighter'', ''ETH'', 3),
          (''Lighter'', ''BTC'', 4)] init_state) = [''BTC'', ''ETH'']"
    unfolding bases_fold by (simp add: lighter_bases_def)
qed

lemma fetch_agg_state:
  assumes "fetch_agg pf outcome = Some (t, seed)"
  shows "\<exists>recs. t = by_base (fold reconcile recs init_state)
               \<and> seed = bases_lighter (fold reconcile recs init_state)"
proof -
  from assms obtain code data where "outcome = Response code (Some data)" "is_success code"
    by (auto simp: fetch_agg_def split: http_outcome.splits if_splits option.splits)
  with assms have "t = by_base (agg_loop pf (traverse data []) init_state)"
    and "seed = bases_lighter (agg_loop pf (traverse data []) init_state)"
    by (simp_all add: fetch_agg_def Let_def)
  then show ?thesis unfolding agg_loop_fold by blast
qed

text \<open>
  C9. When \<open>fetch_agg\<close> returns, the bases of its seed list are those whose row of the
  table holds a rate for Lighter: each base of the seed list is a key of the table with
  a Lighter rate in its row, and each base with a Lighter rate in its row is in the
  seed list.
\<close>

theorem fetch_agg_seed_covers_lighter:
  assumes "fetch_agg str_float outcome = Some (t, seed)"
  shows "\<forall>b. b \<in> set seed \<longleftrightarrow> (\<exists>row r. t b = Some row \<and> row ''Lighter'' = Some r)"
proof -
  from fetch_agg_state[OF assms] obtain recs
    where t: "t = by_base (fold reconcile recs init_state)"
      and s: "seed = bases_lighter (fold reconcile recs init_state)"
    by blast
  have "set seed = {b. cell t b ''Lighter'' \<noteq> None}"
    unfolding t s by (rule seed_inv_fold[OF seed_inv_init])
  then show ?thesis
    by (auto simp: cell_def split: option.splits)
qed

theorem fetch_agg_seed_covers_lighter_witness:
  "fetch_agg no_parse (Response 200 (Some (JObj [(''funding_rates'', JArr
      [JObj [(''exchange'', JStr ''lighter''), (''symbol'', JStr ''BTC''),
             (''rate'', JFloat 0.01)],
       JObj [(''exchange'', JStr ''hyperliquid''), (''symbol'', JStr ''ETH''),
             (''rate'', JFloat 0.02)]])])))
     = Some (fst (the (fetch_agg no_parse (Response 200 (Some (JObj [(''funding_rates'', JArr
      [JObj [(''exchange'', JStr ''lighter''), (''symbol'', JStr ''BTC''),
             (''rate'', JFloat 0.01)],
       JObj [(''exchange'', JStr ''hyperliquid''), (''symbol'', JStr ''ETH''),
             (''rate'', JFloat 0.02)]])]))))), [''BTC''])
   \<and> (\<forall>b. b \<in> set [''BTC''] \<longleftrightarrow>
         (\<exists>row r. fst (the (fetch_agg no_parse (Response 200 (Some (JObj [(''funding_rates'', JArr
      [JObj [(''exchange'', JStr ''lighter''), (''symbol'', JStr ''BTC''),
             (''rate'', JFloat 0.01)],
       JObj [(''exchange'', JStr ''hyperliquid''), (''symbol'', JStr ''ETH''),
             (''rate'', JFloat 0.02)]])]))))) b = Some row \<and> row ''Lighter'' = Some r))"
proof -
  let ?out = "Response 200 (Some (JObj [(''funding_rates'', JArr
      [JObj [(''exchange'', JStr ''lighter''), (''symbol'', JStr ''BTC''),
             (''rate'', JFloat 0.01)],
       JObj [(''exchange'', JStr ''hyperliquid''), (''symbol'', JStr ''ETH''),
             (''rate'', JFloat 0.02)]])]))"
  have s: "snd (the (fetch_agg no_parse ?out)) = [''BTC'']" by code_simp
  have "fetch_agg no_parse ?out \<noteq> None"
    by (simp add: fetch_agg_def is_success_def Let_def)
  then obtain t seed where ts: "fetch_agg no_parse ?out = Some (t, seed)"
    by auto
  with s have h: "fetch_agg no_parse ?out
      = Some (fst (the (fetch_agg no_parse ?out)), [''BTC''])"
    by simp
  show ?thesis using h fetch_agg_seed_covers_lighter [OF h] by blast
qed

section \<open>The latest Paradex entry\<close>


























section \<open>A rate of zero\<close>



section \<open>The market probe\<close>


lemma fetch_paradex_None:
  "fst (fetch_paradex_latest_for_base str_float iso_ts client base quotes) = None
     \<longleftrightarrow> (\<forall>q\<in>set quotes. quote_yield str_float iso_ts client base q = None)"
proof (induction quotes)
  case Nil
  then show ?case by simp
next
  case (Cons q quotes)
  then show ?case
    by (cases "quote_yield str_float iso_ts client base q")
       (auto simp: quote_yield_def Let_def split: prod.splits)
qed





section \<open>The probe loop of main\<close>

lemma setdefault_row_apply:
  "setdefault_row base t b =
     (if b = base then Some (case t base of None \<Rightarrow> Map.empty | Some row \<Rightarrow> row) else t b)"
  by (simp add: setdefault_row_def split: option.splits)

lemma set_cell_apply:
  "set_cell base plat r t b =
     (if b = base then map_option (\<lambda>row. row(plat \<mapsto> r)) (t base) else t b)"
  by (simp add: set_cell_def split: option.splits)

lemma dom_setdefault_row: "dom (setdefault_row base t) = insert base (dom t)"
  by (auto simp: setdefault_row_apply dom_def)

lemma dom_set_cell: "dom (set_cell base plat r t) = dom t"
  by (auto simp: set_cell_apply dom_def)

lemma dom_probe_bases:
  "dom (probe_bases str_float iso_ts client quotes bases t) = dom t \<union> set bases"
proof (induction bases arbitrary: t)
  case Nil
  then show ?case by simp
next
  case (Cons base bases)
  show ?case
    by (cases "fst (fetch_paradex_latest_for_base str_float iso_ts client base quotes)")
       (auto simp: Cons Let_def dom_setdefault_row dom_set_cell)
qed

lemma probe_bases_failed_row:
  assumes "fst (fetch_paradex_latest_for_base str_float iso_ts client b quotes) = None"
  shows "probe_bases str_float iso_ts client quotes bases t b =
           (case t b of
              Some row \<Rightarrow> Some row
            | None \<Rightarrow> if b \<in> set bases then Some Map.empty else None)"
proof (induction bases arbitrary: t)
  case Nil
  then show ?case by (simp split: option.splits)
next
  case (Cons base bases)
  show ?case
  proof (cases "base = b")
    case True
    then show ?thesis using assms
      by (simp add: Cons Let_def setdefault_row_apply split: option.splits)
  next
    case False
    then show ?thesis
      by (cases "fst (fetch_paradex_latest_for_base str_float iso_ts client base quotes)")
         (simp_all add: Cons Let_def setdefault_row_apply set_cell_apply)
  qed
qed

lemma main_exit:
  assumes "fetch_agg str_float agg_outcome = Some (t0, seed)"
  shows "main str_float iso_ts agg_outcome client only_bases limit quotes_arg =
           (0, Some (probe_bases str_float iso_ts client (comma_list quotes_arg)
                       (snd (select_bases only_bases limit t0 seed))
                       (fst (select_bases only_bases limit t0 seed))))"
  using assms by (simp add: main_def split: prod.splits)

lemma accepted_plat:
  "accepted rec = Some (pl, b, r) \<Longrightarrow> pl = ''Lighter'' \<or> pl = ''Hyperliquid''"
  by (auto simp: accepted_def split: prod.splits option.splits if_splits)

lemma accepted_records_plat:
  "(pl, b, r) \<in> set (accepted_records str_float nodes) \<Longrightarrow>
   pl = ''Lighter'' \<or> pl = ''Hyperliquid''"
proof (induction nodes)
  case Nil
  then show ?case by (simp add: accepted_records_def map_filter_simps)
next
  case (Cons n nodes)
  obtain node path where n: "n = (node, path)" by (cases n)
  show ?case
  proof (cases "accepted (extract_record str_float node path)")
    case None
    with Cons n show ?thesis by (simp add: accepted_records_def map_filter_simps)
  next
    case (Some rec)
    with Cons.prems n have "rec = (pl, b, r) \<or> (pl, b, r) \<in> set (accepted_records str_float nodes)"
      by (auto simp: accepted_records_def map_filter_simps)
    then show ?thesis using Some Cons.IH accepted_plat by blast
  qed
qed

lemma last_write_other_plat:
  assumes "\<forall>rec\<in>set recs. fst rec \<noteq> p"
  shows "last_write recs b p = None"
proof -
  have "(b, p) \<notin> fst ` set (rev (map (\<lambda>(pl, b, r). ((b, pl), r)) recs))"
    using assms by force
  then show ?thesis
    unfolding last_write_def by (simp add: map_of_eq_None_iff)
qed

lemma fetch_agg_no_paradex:
  assumes "fetch_agg str_float outcome = Some (t, seed)"
  shows "cell t b ''Paradex'' = None"
proof -
  from assms obtain code data where "outcome = Response code (Some data)" "is_success code"
    by (auto simp: fetch_agg_def split: http_outcome.splits if_splits option.splits)
  with assms have t: "t = by_base (fold reconcile
      (accepted_records str_float (traverse data [])) init_state)"
    by (simp add: fetch_agg_def Let_def agg_loop_fold)
  have "\<forall>rec\<in>set (accepted_records str_float (traverse data [])). fst rec \<noteq> ''Paradex''"
  proof
    fix rec
    assume r: "rec \<in> set (accepted_records str_float (traverse data []))"
    obtain pl b' r' where rec: "rec = (pl, b', r')" by (cases rec)
    from r accepted_records_plat[of pl b' r' str_float "traverse data []"]
    have "pl = ''Lighter'' \<or> pl = ''Hyperliquid''" by (simp add: rec)
    then show "fst rec \<noteq> ''Paradex''" by (auto simp: rec)
  qed
  then show ?thesis
    unfolding t cell_fold_init by (rule last_write_other_plat)
qed

lemma cell_setdefault_row: "cell (setdefault_row base t) b p = cell t b p"
  by (simp add: cell_def setdefault_row_apply split: option.splits)

lemma cell_fold_setdefault_row: "cell (fold setdefault_row bs t) b p = cell t b p"
  by (induction bs arbitrary: t) (simp_all add: cell_setdefault_row)

lemma cell_select_bases:
  "cell (fst (select_bases only_bases limit t0 seed)) b p = cell t0 b p"
  by (simp add: select_bases_def cell_fold_setdefault_row)

lemma main_failed_row:
  assumes agg: "fetch_agg str_float agg_outcome = Some (t0, seed)"
    and b: "b \<in> set (snd (select_bases only_bases limit t0 seed))"
    and fails: "\<forall>q\<in>set (comma_list quotes_arg). quote_yield str_float iso_ts client b q = None"
  shows "\<exists>t1 row. main str_float iso_ts agg_outcome client only_bases limit quotes_arg
             = (0, Some t1) \<and> t1 b = Some row \<and> row ''Paradex'' = None"
proof -
  let ?sel = "select_bases only_bases limit t0 seed"
  let ?t1 = "probe_bases str_float iso_ts client (comma_list quotes_arg) (snd ?sel) (fst ?sel)"
  have m: "main str_float iso_ts agg_outcome client only_bases limit quotes_arg = (0, Some ?t1)"
    by (rule main_exit[OF agg])
  from fails have
    "fst (fetch_paradex_latest_for_base str_float iso_ts client b (comma_list quotes_arg)) = None"
    by (simp add: fetch_paradex_None)
  from probe_bases_failed_row[OF this, of "snd ?sel" "fst ?sel"] b
  have row: "?t1 b = Some (case fst ?sel b of None \<Rightarrow> Map.empty | Some row \<Rightarrow> row)"
    by (simp split: option.splits)
  have "cell (fst ?sel) b ''Paradex'' = None"
    by (simp add: cell_select_bases fetch_agg_no_paradex[OF agg])
  then have "(case fst ?sel b of None \<Rightarrow> Map.empty | Some row \<Rightarrow> row) ''Paradex'' = None"
    by (simp add: cell_def split: option.splits)
  with m row show ?thesis by blast
qed

text \<open>
  C8. After the probe loop of \<open>main\<close> every probed base is a key of the table and every
  key the table had is still one. A base for which no quote gives a rate keeps the row
  it had, or gets an empty row when it had none. Once the aggregator has been read,
  \<open>main\<close> ends with the status 0 and the table of the probe loop, whatever the probe
  requests give; every probed base is a key of that table, and the row of a probed base
  for which no quote gives a rate has no Paradex rate.
\<close>

theorem probe_failures_keep_asset:
  "set bases \<subseteq> dom (probe_bases str_float iso_ts client quotes bases t)
   \<and> dom t \<subseteq> dom (probe_bases str_float iso_ts client quotes bases t)
   \<and> (b \<in> set bases \<and> (\<forall>q\<in>set quotes. quote_yield str_float iso_ts client b q = None) \<longrightarrow>
      probe_bases str_float iso_ts client quotes bases t b
        = Some (case t b of None \<Rightarrow> Map.empty | Some row \<Rightarrow> row))
   \<and> (fetch_agg str_float agg_outcome = Some (t0, seed) \<longrightarrow>
      (\<exists>t1. main str_float iso_ts agg_outcome client only_bases limit quotes_arg = (0, Some t1)
          \<and> set (snd (select_bases only_bases limit t0 seed)) \<subseteq> dom t1))
   \<and> (fetch_agg str_float agg_outcome = Some (t0, seed)
        \<and> b \<in> set (snd (select_bases only_bases limit t0 seed))
        \<and> (\<forall>q\<in>set (comma_list quotes_arg). quote_yield str_float iso_ts client b q = None)
      \<longrightarrow>
      (\<exists>t1 row. main str_float iso_ts agg_outcome client only_bases limit quotes_arg
           = (0, Some t1) \<and> t1 b = Some row \<and> row ''Paradex'' = None))"
proof (intro conjI impI)
  show "set bases \<subseteq> dom (probe_bases str_float iso_ts client quotes bases t)"
    by (simp add: dom_probe_bases)
  show "dom t \<subseteq> dom (probe_bases str_float iso_ts client quotes bases t)"
    by (simp add: dom_probe_bases)
next
  assume a: "b \<in> set bases \<and> (\<forall>q\<in>set quotes. quote_yield str_float iso_ts client b q = None)"
  then have "fst (fetch_paradex_latest_for_base str_float iso_ts client b quotes) = None"
    by (simp add: fetch_paradex_None)
  from probe_bases_failed_row[OF this, of bases t] a
  show "probe_bases str_float iso_ts client quotes bases t b
        = Some (case t b of None \<Rightarrow> Map.empty | Some row \<Rightarrow> row)"
    by (simp split: option.splits)
next
  assume "fetch_agg str_float agg_outcome = Some (t0, seed)"
  from main_exit[OF this]
  show "\<exists>t1. main str_float iso_ts agg_outcome client only_bases limit quotes_arg = (0, Some t1)
          \<and> set (snd (select_bases only_bases limit t0 seed)) \<subseteq> dom t1"
    by (simp add: dom_probe_bases)
next
  assume "fetch_agg str_float agg_outcome = Some (t0, seed)
        \<and> b \<in> set (snd (select_bases only_bases limit t0 seed))
        \<and> (\<forall>q\<in>set (comma_list quotes_arg). quote_yield str_float iso_ts client b q = None)"
  then show "\<exists>t1 row. main str_float iso_ts agg_outcome client only_bases limit quotes_arg
           = (0, Some t1) \<and> t1 b = Some row \<and> row ''Paradex'' = None"
    using main_failed_row by blast
qed

lemma no_market_yield:
  "quote_yield no_parse no_parse (one_market_client ''BTC-USDC-PERP'' (JArr [entry 1 100]))
     ''ETH'' ''USD'' = None"
  "quote_yield no_parse no_parse (one_market_client ''BTC-USDC-PERP'' (JArr [entry 1 100]))
     ''ETH'' ''USDC'' = None"
  by (simp_all add: quote_yield_def one_market_client_def PARADEX_URL_def market_id_def
      quote_rate_def)

theorem probe_failures_keep_asset_witness:
  "''ETH'' \<in> set [''BTC'', ''ETH'']
   \<and> quote_yield no_parse no_parse
        (one_market_client ''BTC-USDC-PERP'' (JArr [entry 1 100])) ''ETH'' ''USD'' = None
   \<and> quote_yield no_parse no_parse
        (one_market_client ''BTC-USDC-PERP'' (JArr [entry 1 100])) ''ETH'' ''USDC'' = None
   \<and> probe_bases no_parse no_parse
        (one_market_client ''BTC-USDC-PERP'' (JArr [entry 1 100]))
        [''USD'', ''USDC''] [''BTC'', ''ETH''] Map.empty ''ETH'' = Some Map.empty
   \<and> comma_list ''USD,USDC'' = [''USD'', ''USDC'']
   \<and> (\<exists>t1 row. main no_parse no_parse
          (Response 200 (Some (JObj [(''funding_rates'', JArr
             [JObj [(''exchange'', JStr ''lighter''), (''symbol'', JStr ''ETH''),
                    (''rate'', JFloat 0.01)]])])))
          (one_market_client ''BTC-USDC-PERP'' (JArr [entry 1 100])) [] 0 ''USD,USDC''
        = (0, Some t1) \<and> t1 ''ETH'' = Some row \<and> row ''Paradex'' = None)"
proof -
  let ?c = "one_market_client ''BTC-USDC-PERP'' (JArr [entry 1 100])"
  let ?agg = "Response 200 (Some (JObj [(''funding_rates'', JArr
             [JObj [(''exchange'', JStr ''lighter''), (''symbol'', JStr ''ETH''),
                    (''rate'', JFloat 0.01)]])]))"
  let ?t0 = "fst (the (fetch_agg no_parse ?agg))"
  have h1: "''ETH'' \<in> set [''BTC'', ''ETH'']" by simp
  have h2: "\<forall>q\<in>set [''USD'', ''USDC'']. quote_yield no_parse no_parse ?c ''ETH'' q = None"
    using no_market_yield by simp
  have s: "snd (the (fetch_agg no_parse ?agg)) = [''ETH'']" by code_simp
  have "fetch_agg no_parse ?agg \<noteq> None"
    by (simp add: fetch_agg_def is_success_def Let_def)
  with s have h3: "fetch_agg no_parse ?agg = Some (?t0, [''ETH''])"
    by auto
  have sel: "snd (select_bases [] 0 ?t0 [''ETH'']) = [''ETH'']"
    by (simp add: select_bases_def py_strip_def)
  have q: "comma_list ''USD,USDC'' = [''USD'', ''USDC'']" by code_simp
  note inst = probe_failures_keep_asset
    [where bases = "[''BTC'', ''ETH'']" and str_float = no_parse and iso_ts = no_parse
       and client = ?c and quotes = "[''USD'', ''USDC'']" and t = Map.empty and b = "''ETH''"
       and agg_outcome = ?agg and ?t0.0 = ?t0 and seed = "[''ETH'']" and only_bases = "[]"
       and limit = 0 and quotes_arg = "''USD,USDC''"]
  from inst h1 h2 have
    "probe_bases no_parse no_parse ?c [''USD'', ''USDC''] [''BTC'', ''ETH''] Map.empty ''ETH''
       = Some (case Map.empty ''ETH'' of None \<Rightarrow> Map.empty | Some row \<Rightarrow> row)"
    by blast
  then have p: "probe_bases no_parse no_parse ?c [''USD'', ''USDC''] [''BTC'', ''ETH'']
       Map.empty ''ETH'' = Some Map.empty"
    by simp
  have h4: "''ETH'' \<in> set (snd (select_bases [] 0 ?t0 [''ETH'']))"
    unfolding sel by simp
  have h5: "\<forall>q\<in>set (comma_list ''USD,USDC'').
      quote_yield no_parse no_parse ?c ''ETH'' q = None"
    unfolding q by (rule h2)
  from inst h3 h4 h5 have m:
    "\<exists>t1 row. main no_parse no_parse ?agg ?c [] 0 ''USD,USDC'' = (0, Some t1)
        \<and> t1 ''ETH'' = Some row \<and> row ''Paradex'' = None"
    by blast
  from h1 no_market_yield p q m show ?thesis by blast
qed

end
